theory Spec2Isabelle
  imports Complex_Main "HOL-Library.Mapping" "HOL-Library.AList_Mapping"
begin

section \<open>The arithmetic of \<^verbatim>\<open>float64\<close>\<close>

text \<open>
  A weight is Go's \<^verbatim>\<open>float64\<close>, the binary64 format of IEEE 754, and every sum, product
  and quotient of the source is rounded to it. The model keeps that: a value is a finite
  number (a real that the format can represent), an infinity or a NaN, and an operation on
  finite values computes the exact result and rounds it to the nearest representable
  number, ties to the one with an even significand, with gradual underflow below
  \<open>2 powi (- 1022)\<close> and overflow to an infinity from \<open>2 ^ 1024 - 2 ^ 970\<close> on.

  Two things are left out. The sign of a zero: the code cannot observe it, since it never
  divides by a zero (line 35 is guarded by \<^verbatim>\<open>total > 0\<close>) and compares weights only with
  \<^verbatim>\<open>>\<close> and \<^verbatim>\<open><=\<close>, for which the two zeros are equal; \<open>fdiv\<close> by \<open>Fin 0\<close> is the
  division by the positive zero. And the fusing of a product with a sum, which the Go
  specification permits on some architectures: every operation is rounded on its own.
\<close>

datatype float64 = Fin real | PInf | NInf | NaN

text \<open>The integer nearest to \<open>v\<close>, the even one of the two when \<open>v\<close> is halfway.\<close>

definition rne :: "real \<Rightarrow> int" where
  "rne v =
     (let f = \<lfloor>v\<rfloor>; d = v - of_int f
      in if d < 1 / 2 then f else if 1 / 2 < d then f + 1 else if even f then f else f + 1)"

text \<open>
  The exponent of the unit in the last place at \<open>x\<close>: the \<open>e\<close> with
  \<open>2 powi (e + 52) \<le> \<bar>x\<bar> < 2 powi (e + 53)\<close>, kept within \<open>- 1074\<close> (subnormal numbers)
  and \<open>971\<close> (the largest binade).
\<close>

definition ulp_exp :: "real \<Rightarrow> int" where
  "ulp_exp x = Max (insert (- 1074) {e \<in> {- 1073 .. 971}. 2 powi (e + 52) \<le> \<bar>x\<bar>})"

definition round64 :: "real \<Rightarrow> float64" where
  "round64 x =
     (let e = ulp_exp x; y = of_int (rne (x / 2 powi e)) * 2 powi e
      in if 2 ^ 1024 \<le> y then PInf else if y \<le> - (2 ^ 1024) then NInf else Fin y)"

text \<open>A finite value is a number of the format when rounding leaves it as it is.\<close>

fun is_float64 :: "float64 \<Rightarrow> bool" where
  "is_float64 (Fin x) = (round64 x = Fin x)"
| "is_float64 a = True"

text \<open>The operators \<^verbatim>\<open>+\<close>, \<^verbatim>\<open>*\<close>, \<^verbatim>\<open>/\<close>, \<^verbatim>\<open><\<close> and \<^verbatim>\<open><=\<close> on \<^verbatim>\<open>float64\<close>.\<close>

fun fadd :: "float64 \<Rightarrow> float64 \<Rightarrow> float64" where
  "fadd (Fin x) (Fin y) = round64 (x + y)"
| "fadd NaN b = NaN"
| "fadd a NaN = NaN"
| "fadd PInf NInf = NaN"
| "fadd NInf PInf = NaN"
| "fadd PInf b = PInf"
| "fadd a PInf = PInf"
| "fadd NInf b = NInf"
| "fadd a NInf = NInf"

fun fmul :: "float64 \<Rightarrow> float64 \<Rightarrow> float64" where
  "fmul (Fin x) (Fin y) = round64 (x * y)"
| "fmul NaN b = NaN"
| "fmul a NaN = NaN"
| "fmul PInf (Fin y) = (if y = 0 then NaN else if 0 < y then PInf else NInf)"
| "fmul NInf (Fin y) = (if y = 0 then NaN else if 0 < y then NInf else PInf)"
| "fmul (Fin x) PInf = (if x = 0 then NaN else if 0 < x then PInf else NInf)"
| "fmul (Fin x) NInf = (if x = 0 then NaN else if 0 < x then NInf else PInf)"
| "fmul PInf PInf = PInf"
| "fmul PInf NInf = NInf"
| "fmul NInf PInf = NInf"
| "fmul NInf NInf = PInf"

fun fdiv :: "float64 \<Rightarrow> float64 \<Rightarrow> float64" where
  "fdiv (Fin x) (Fin y) =
     (if y = 0 then (if x = 0 then NaN else if 0 < x then PInf else NInf) else round64 (x / y))"
| "fdiv NaN b = NaN"
| "fdiv a NaN = NaN"
| "fdiv (Fin x) PInf = Fin 0"
| "fdiv (Fin x) NInf = Fin 0"
| "fdiv PInf (Fin y) = (if 0 \<le> y then PInf else NInf)"
| "fdiv NInf (Fin y) = (if 0 \<le> y then NInf else PInf)"
| "fdiv PInf b = NaN"
| "fdiv NInf b = NaN"

fun flt :: "float64 \<Rightarrow> float64 \<Rightarrow> bool" where
  "flt (Fin x) (Fin y) = (x < y)"
| "flt NaN b = False"
| "flt a NaN = False"
| "flt a NInf = False"
| "flt PInf b = False"
| "flt NInf b = True"
| "flt a PInf = True"

fun fle :: "float64 \<Rightarrow> float64 \<Rightarrow> bool" where
  "fle (Fin x) (Fin y) = (x \<le> y)"
| "fle NaN b = False"
| "fle a NaN = False"
| "fle NInf b = True"
| "fle a PInf = True"
| "fle a NInf = False"
| "fle PInf b = False"

section \<open>Data model of \<^verbatim>\<open>main.go\<close>\<close>

text \<open>
  A coordinate is Go's \<^verbatim>\<open>[2]int\<close>. The engine only compares coordinates for equality and
  uses them as map keys, so the integer width plays no role and \<open>int\<close> is used.

  \<^verbatim>\<open>CoordDist\<close> is a Go map, that is a reference to a mutable table, and every method has a
  pointer receiver. Both levels of indirection are kept: a heap holds the objects by
  address and the tables by address, and an object stores the address of its table. Two
  pointers may therefore denote one object, and two objects may share one table. Pointers
  are always valid in this model (a nil \<^verbatim>\<open>*QuantumObject\<close> is not represented); a nil map
  behaves in all code modelled here as an empty table, since it is only ranged over and
  written inside such a loop.
\<close>

type_synonym coord = "int \<times> int"

type_synonym dist = "(coord, float64) mapping"

type_synonym ref = nat

record QuantumObject =
  Name :: string
  CoordDist :: ref
  IsCollapsed :: bool
  FinalCoord :: coord

record heap =
  objs :: "ref \<Rightarrow> QuantumObject"
  maps :: "ref \<Rightarrow> dist"
  nxt :: ref

record World =
  Width :: int
  Height :: int
  Objects :: "ref list"

subsection \<open>What the runtime chooses\<close>

text \<open>
  Go does not specify the order in which \<^verbatim>\<open>range\<close> visits the entries of a map, and the
  order may differ from one loop to the next. Each \<^verbatim>\<open>range\<close> loop of the source therefore
  takes the order of its visit as a list of keys. A loop visits the keys of that list from
  left to right and skips a key that has no entry in the table. The order is one the runtime
  can produce when it lists every key of the table exactly once (\<open>range_order\<close>).

  \<^verbatim>\<open>rand.Float64()\<close> is a parameter as well: the number drawn, a \<^verbatim>\<open>float64\<close> in
  \<open>[0, 1)\<close>.
\<close>

definition range_order :: "coord list \<Rightarrow> dist \<Rightarrow> bool" where
  "range_order ks d \<longleftrightarrow> distinct ks \<and> set ks = Mapping.keys d"

record normEnv =
  sumOrder :: "coord list"
  scaleOrder :: "coord list"

record collapseEnv =
  normOrders :: normEnv
  draw :: float64
  scanOrder :: "coord list"

record interactEnv =
  norm1 :: normEnv
  norm2 :: normEnv
  outerOrder :: "coord list"
  innerOrder :: "coord \<Rightarrow> coord list"
  collapse1 :: collapseEnv
  collapse2 :: collapseEnv

section \<open>The operations\<close>

subsection \<open>\<^verbatim>\<open>NormalizeDistribution\<close> (lines 28-38)\<close>

text \<open>
  The first loop: \<^verbatim>\<open>for _, w := range q.CoordDist { total += w }\<close>, from the running
  value \<open>tot\<close> of \<^verbatim>\<open>total\<close>.
\<close>

fun NormalizeDistribution_total :: "dist \<Rightarrow> float64 \<Rightarrow> coord list \<Rightarrow> float64" where
  "NormalizeDistribution_total d tot [] = tot"
| "NormalizeDistribution_total d tot (k # ks) =
     (case Mapping.lookup d k of
        None \<Rightarrow> NormalizeDistribution_total d tot ks
      | Some w \<Rightarrow> NormalizeDistribution_total d (fadd tot w) ks)"

text \<open>
  The second loop: \<^verbatim>\<open>for k, w := range q.CoordDist { q.CoordDist[k] = w / total }\<close>. The
  weight \<open>w\<close> is read from the table as it is when the key is reached.
\<close>

fun NormalizeDistribution_scale :: "float64 \<Rightarrow> dist \<Rightarrow> coord list \<Rightarrow> dist" where
  "NormalizeDistribution_scale tot d [] = d"
| "NormalizeDistribution_scale tot d (k # ks) =
     (case Mapping.lookup d k of
        None \<Rightarrow> NormalizeDistribution_scale tot d ks
      | Some w \<Rightarrow> NormalizeDistribution_scale tot (Mapping.update k (fdiv w tot) d) ks)"

definition NormalizeDistribution :: "normEnv \<Rightarrow> ref \<Rightarrow> heap \<Rightarrow> heap" where
  "NormalizeDistribution e q s =
     (let m = CoordDist (objs s q);
          tot = NormalizeDistribution_total (maps s m) (Fin 0) (sumOrder e)
      in if flt (Fin 0) tot
         then s\<lparr>maps := (maps s)(m := NormalizeDistribution_scale tot (maps s m) (scaleOrder e))\<rparr>
         else s)"

subsection \<open>\<^verbatim>\<open>Collapse\<close> (lines 41-56)\<close>

text \<open>
  The loop of lines 48-55 from the running sum \<open>cumulative\<close>: the coordinate at which it
  breaks, or \<open>None\<close> when it runs to the end without assigning.
\<close>

fun Collapse_scan :: "float64 \<Rightarrow> dist \<Rightarrow> float64 \<Rightarrow> coord list \<Rightarrow> coord option" where
  "Collapse_scan r d cumulative [] = None"
| "Collapse_scan r d cumulative (k # ks) =
     (case Mapping.lookup d k of
        None \<Rightarrow> Collapse_scan r d cumulative ks
      | Some prob \<Rightarrow>
          (let cumulative' = fadd cumulative prob
           in if fle r cumulative' then Some k else Collapse_scan r d cumulative' ks))"

definition Collapse :: "collapseEnv \<Rightarrow> ref \<Rightarrow> heap \<Rightarrow> heap" where
  "Collapse e q s =
     (if IsCollapsed (objs s q) then s
      else
        let s1 = NormalizeDistribution (normOrders e) q s;
            r = draw e
        in case Collapse_scan r (maps s1 (CoordDist (objs s1 q))) (Fin 0) (scanOrder e) of
             None \<Rightarrow> s1
           | Some c \<Rightarrow>
               s1\<lparr>objs := (objs s1)(q := (objs s1 q)\<lparr>IsCollapsed := True, FinalCoord := c\<rparr>)\<rparr>)"

subsection \<open>\<^verbatim>\<open>NewQuantumObject\<close>, \<^verbatim>\<open>NewWorld\<close>, \<^verbatim>\<open>AddQuantumObject\<close>\<close>

text \<open>
  \<^verbatim>\<open>NewQuantumObject\<close> stores the caller's map reference, does not copy the table, and
  leaves the other fields at their zero values.
\<close>

definition NewQuantumObject :: "string \<Rightarrow> ref \<Rightarrow> QuantumObject" where
  "NewQuantumObject name dist' =
     \<lparr>Name = name, CoordDist = dist', IsCollapsed = False, FinalCoord = (0, 0)\<rparr>"

definition NewWorld :: "int \<Rightarrow> int \<Rightarrow> World" where
  "NewWorld width height = \<lparr>Width = width, Height = height, Objects = []\<rparr>"

definition AddQuantumObject :: "World \<Rightarrow> ref \<Rightarrow> World" where
  "AddQuantumObject w obj = w\<lparr>Objects := Objects w @ [obj]\<rparr>"

subsection \<open>\<^verbatim>\<open>MeasureInteraction\<close> (lines 92-133)\<close>

text \<open>
  The inner loop of lines 109-117 for one entry \<open>(c1, p1)\<close> of the first table. An index
  expression on a map reads the zero value \<open>0\<close> for an absent key, so
  \<^verbatim>\<open>newDist1[c1] += w\<close> creates the entry when there is none. The product is rounded, and
  can underflow to \<open>0\<close>: the guard \<^verbatim>\<open>w > 0\<close> of line 112 then skips the entry.
\<close>

fun MeasureInteraction_inner ::
  "coord \<Rightarrow> float64 \<Rightarrow> dist \<Rightarrow> dist \<times> dist \<Rightarrow> coord list \<Rightarrow> dist \<times> dist" where
  "MeasureInteraction_inner c1 p1 d2 nd [] = nd"
| "MeasureInteraction_inner c1 p1 d2 nd (c2 # ks) =
     (case Mapping.lookup d2 c2 of
        None \<Rightarrow> MeasureInteraction_inner c1 p1 d2 nd ks
      | Some p2 \<Rightarrow>
          (if c1 = c2 \<and> flt (Fin 0) p1 \<and> flt (Fin 0) p2
           then
             (let w = fmul p1 p2
              in if flt (Fin 0) w
                 then MeasureInteraction_inner c1 p1 d2
                        (Mapping.update c1 (fadd (Mapping.lookup_default (Fin 0) (fst nd) c1) w) (fst nd),
                         Mapping.update c2 (fadd (Mapping.lookup_default (Fin 0) (snd nd) c2) w) (snd nd))
                        ks
                 else MeasureInteraction_inner c1 p1 d2 nd ks)
           else MeasureInteraction_inner c1 p1 d2 nd ks))"

text \<open>The outer loop of lines 108-118; the inner loop gets an order of its own each time.\<close>

fun MeasureInteraction_outer ::
  "(coord \<Rightarrow> coord list) \<Rightarrow> dist \<Rightarrow> dist \<Rightarrow> dist \<times> dist \<Rightarrow> coord list \<Rightarrow> dist \<times> dist" where
  "MeasureInteraction_outer inner d1 d2 nd [] = nd"
| "MeasureInteraction_outer inner d1 d2 nd (c1 # ks) =
     (case Mapping.lookup d1 c1 of
        None \<Rightarrow> MeasureInteraction_outer inner d1 d2 nd ks
      | Some p1 \<Rightarrow>
          MeasureInteraction_outer inner d1 d2
            (MeasureInteraction_inner c1 p1 d2 nd (inner c1)) ks)"

text \<open>
  Lines 102-118: the two fresh maps and the loops that fill them, from the tables of the
  two objects.
\<close>

definition MeasureInteraction_combine ::
  "coord list \<Rightarrow> (coord \<Rightarrow> coord list) \<Rightarrow> dist \<Rightarrow> dist \<Rightarrow> dist \<times> dist" where
  "MeasureInteraction_combine outer inner d1 d2 =
     MeasureInteraction_outer inner d1 d2 (Mapping.empty, Mapping.empty) outer"

text \<open>
  Lines 127-128: \<^verbatim>\<open>obj1.CoordDist = newDist1; obj2.CoordDist = newDist2\<close>. The two maps
  made at lines 102-103 are local until here, so they enter the heap at this point, at two
  fresh addresses.
\<close>

definition MeasureInteraction_install :: "dist \<Rightarrow> dist \<Rightarrow> ref \<Rightarrow> ref \<Rightarrow> heap \<Rightarrow> heap" where
  "MeasureInteraction_install newDist1 newDist2 obj1 obj2 s =
     (let a1 = nxt s;
          a2 = Suc (nxt s);
          s1 = s\<lparr>maps := (maps s)(a1 := newDist1, a2 := newDist2), nxt := Suc (Suc (nxt s))\<rparr>;
          s2 = s1\<lparr>objs := (objs s1)(obj1 := (objs s1 obj1)\<lparr>CoordDist := a1\<rparr>)\<rparr>
      in s2\<lparr>objs := (objs s2)(obj2 := (objs s2 obj2)\<lparr>CoordDist := a2\<rparr>)\<rparr>)"

text \<open>The receiver \<open>w\<close> is not used by the body.\<close>

definition MeasureInteraction :: "interactEnv \<Rightarrow> World \<Rightarrow> ref \<Rightarrow> ref \<Rightarrow> heap \<Rightarrow> heap" where
  "MeasureInteraction e w obj1 obj2 s =
     (if IsCollapsed (objs s obj1) \<and> IsCollapsed (objs s obj2) then s
      else
        let s1 = NormalizeDistribution (norm1 e) obj1 s;
            s2 = NormalizeDistribution (norm2 e) obj2 s1;
            nd = MeasureInteraction_combine (outerOrder e) (innerOrder e)
                   (maps s2 (CoordDist (objs s2 obj1))) (maps s2 (CoordDist (objs s2 obj2)))
        in if Mapping.is_empty (fst nd) \<or> Mapping.is_empty (snd nd) then s2
           else
             Collapse (collapse2 e) obj2
               (Collapse (collapse1 e) obj1
                  (MeasureInteraction_install (fst nd) (snd nd) obj1 obj2 s2)))"

subsection \<open>\<^verbatim>\<open>CollapseAll\<close> (lines 136-140)\<close>

text \<open>The \<open>i\<close>-th call of \<^verbatim>\<open>Collapse\<close> gets the choices \<open>es i\<close>.\<close>

fun CollapseAll_loop :: "(nat \<Rightarrow> collapseEnv) \<Rightarrow> nat \<Rightarrow> ref list \<Rightarrow> heap \<Rightarrow> heap" where
  "CollapseAll_loop es i [] s = s"
| "CollapseAll_loop es i (obj # objs') s = CollapseAll_loop es (Suc i) objs' (Collapse (es i) obj s)"

definition CollapseAll :: "(nat \<Rightarrow> collapseEnv) \<Rightarrow> World \<Rightarrow> heap \<Rightarrow> heap" where
  "CollapseAll es w s = CollapseAll_loop es 0 (Objects w) s"

section \<open>Notions used to state the properties\<close>

text \<open>
  The weight of a coordinate in a table, read as an index expression reads it: \<open>0\<close> when
  the coordinate has no entry. The total of a table is the \<^verbatim>\<open>float64\<close> sum of its weights
  from \<open>0\<close>, taken in the order \<open>ks\<close> of a visit: the sum is rounded at every step, so
  it can depend on that order.
\<close>

definition weight_at :: "dist \<Rightarrow> coord \<Rightarrow> float64" where
  "weight_at d c = Mapping.lookup_default (Fin 0) d c"

definition float_total :: "dist \<Rightarrow> coord list \<Rightarrow> float64" where
  "float_total d ks = foldl fadd (Fin 0) (map (weight_at d) ks)"

text \<open>
  The overlap of two tables: the coordinates present in both with a positive weight in
  both. The joint weight: the \<^verbatim>\<open>float64\<close> product of the two weights at a coordinate of
  the overlap where that product is positive, no entry elsewhere.
\<close>

definition overlap :: "dist \<Rightarrow> dist \<Rightarrow> coord set" where
  "overlap d1 d2 =
     {c \<in> Mapping.keys d1 \<inter> Mapping.keys d2.
        flt (Fin 0) (weight_at d1 c) \<and> flt (Fin 0) (weight_at d2 c)}"

definition joint_weight :: "dist \<Rightarrow> dist \<Rightarrow> coord \<Rightarrow> float64 option" where
  "joint_weight d1 d2 c =
     (if c \<in> overlap d1 d2 \<and> flt (Fin 0) (fmul (weight_at d1 c) (weight_at d2 c))
      then Some (fmul (weight_at d1 c) (weight_at d2 c)) else None)"

text \<open>
  The cumulative sum after the entry at position \<open>i\<close> of a visit in the order \<open>ks\<close>, and
  the specification's selection rule: position \<open>i\<close> is the first one whose cumulative sum
  reaches the number drawn.
\<close>

definition cumulative_upto :: "dist \<Rightarrow> coord list \<Rightarrow> nat \<Rightarrow> float64" where
  "cumulative_upto d ks i = float_total d (take (Suc i) ks)"

definition first_reaching :: "float64 \<Rightarrow> dist \<Rightarrow> coord list \<Rightarrow> nat \<Rightarrow> bool" where
  "first_reaching r d ks i \<longleftrightarrow>
     i < length ks \<and> fle r (cumulative_upto d ks i) \<and> (\<forall>j < i. \<not> fle r (cumulative_upto d ks j))"

section \<open>Concrete heaps, tables and choices\<close>

text \<open>
  A heap with two objects, at addresses \<open>0\<close> and \<open>1\<close>, each with a table of its own (at
  table addresses \<open>0\<close> and \<open>1\<close>); every other pointer denotes an object that shares the
  second table.
\<close>

definition two_objects :: "dist \<Rightarrow> dist \<Rightarrow> heap" where
  "two_objects dA dB =
     \<lparr>objs = (\<lambda>p. NewQuantumObject (if p = 0 then ''a'' else ''b'') (if p = 0 then 0 else 1)),
      maps = (\<lambda>m. if m = 0 then dA else if m = 1 then dB else Mapping.empty),
      nxt = 2\<rparr>"

definition collapsed_at :: "ref \<Rightarrow> coord \<Rightarrow> heap \<Rightarrow> heap" where
  "collapsed_at q c s = s\<lparr>objs := (objs s)(q := (objs s q)\<lparr>IsCollapsed := True, FinalCoord := c\<rparr>)\<rparr>"

text \<open>Choices that use one order for every loop of a call.\<close>

definition fixed_norm :: "coord list \<Rightarrow> normEnv" where
  "fixed_norm ks = \<lparr>sumOrder = ks, scaleOrder = ks\<rparr>"

definition fixed_env :: "float64 \<Rightarrow> coord list \<Rightarrow> collapseEnv" where
  "fixed_env r ks = \<lparr>normOrders = fixed_norm ks, draw = r, scanOrder = ks\<rparr>"

text \<open>
  Choices for \<open>MeasureInteraction\<close>: \<open>ka\<close> for the loops over the first object's table,
  \<open>kb\<close> for those over the second object's table, \<open>kn\<close> for the loops over the two new
  tables, and the two numbers drawn.
\<close>

definition interact_env ::
  "coord list \<Rightarrow> coord list \<Rightarrow> coord list \<Rightarrow> float64 \<Rightarrow> float64 \<Rightarrow> interactEnv" where
  "interact_env ka kb kn r1 r2 =
     \<lparr>norm1 = fixed_norm ka, norm2 = fixed_norm kb, outerOrder = ka, innerOrder = (\<lambda>c. kb),
      collapse1 = fixed_env r1 kn, collapse2 = fixed_env r2 kn\<rparr>"

definition diag2 :: "coord list" where
  "diag2 = [(0, 0), (1, 1)]"

definition diag3 :: "coord list" where
  "diag3 = [(0, 0), (1, 1), (2, 2)]"

text \<open>
  The decimal constants \<open>0.2\<close>, \<open>0.5\<close>, \<open>0.9\<close>, \<open>0.3\<close> and \<open>0.7\<close> as \<^verbatim>\<open>float64\<close>
  values: a constant is converted by rounding it.
\<close>

definition f02 :: float64 where
  "f02 = round64 (1 / 5)"

definition f05 :: float64 where
  "f05 = round64 (1 / 2)"

definition f09 :: float64 where
  "f09 = round64 (9 / 10)"

definition f03 :: float64 where
  "f03 = round64 (3 / 10)"

definition f07 :: float64 where
  "f07 = round64 (7 / 10)"

text \<open>The tables of the specification's examples.\<close>

definition uniform2 :: dist where
  "uniform2 = Mapping.update (0, 0) (Fin 1) (Mapping.update (1, 1) (Fin 1) Mapping.empty)"

definition dist_37 :: dist where
  "dist_37 = Mapping.update (0, 0) f03 (Mapping.update (1, 0) f07 Mapping.empty)"

definition half_half :: dist where
  "half_half = Mapping.update (0, 0) (Fin (1 / 2)) (Mapping.update (1, 1) (Fin (1 / 2)) Mapping.empty)"

definition point11 :: dist where
  "point11 = Mapping.update (1, 1) (Fin 1) Mapping.empty"

definition half11 :: dist where
  "half11 = Mapping.update (1, 1) (Fin (1 / 2)) Mapping.empty"

text \<open>
  Degenerate, unnormalised and extreme tables: a single weight \<open>0\<close>; a single weight
  \<open>2\<close>; the weights \<open>1\<close>, \<open>2\<close>, \<open>3\<close>; two weights \<open>2 ^ 1023\<close>, whose sum overflows;
  a single weight \<open>2 powi (- 600)\<close>, whose square underflows.
\<close>

definition zero00 :: dist where
  "zero00 = Mapping.update (0, 0) (Fin 0) Mapping.empty"

definition heavy00 :: dist where
  "heavy00 = Mapping.update (0, 0) (Fin 2) Mapping.empty"

definition one_two_three :: dist where
  "one_two_three =
     Mapping.update (0, 0) (Fin 1)
       (Mapping.update (1, 1) (Fin 2) (Mapping.update (2, 2) (Fin 3) Mapping.empty))"

definition huge :: float64 where
  "huge = Fin (2 ^ 1023)"

definition tiny :: float64 where
  "tiny = Fin (2 powi (- 600))"

definition huge2 :: dist where
  "huge2 = Mapping.update (0, 0) huge (Mapping.update (1, 1) huge Mapping.empty)"

definition tiny00 :: dist where
  "tiny00 = Mapping.update (0, 0) tiny Mapping.empty"

text \<open>
  A table on which the rounding of the running sum decides the draw: the exact sum of the
  first two weights lies halfway between two numbers of the format.
\<close>

definition ties3 :: dist where
  "ties3 =
     Mapping.update (0, 0) (Fin (4503599627370497 / 9007199254740992))
       (Mapping.update (1, 0) (Fin (1 / 18014398509481984))
          (Mapping.update (2, 0) (Fin (9007199254740989 / 18014398509481984)) Mapping.empty))"

section \<open>Facts about the rounding\<close>

lemma rne_of_int [simp]: "rne (of_int n) = n"
  by (simp add: rne_def)

lemma rne_zero [simp]: "rne 0 = 0"
  using rne_of_int [of 0] by simp

lemma rne_cases: "rne v = \<lfloor>v\<rfloor> \<or> rne v = \<lfloor>v\<rfloor> + 1 \<and> of_int \<lfloor>v\<rfloor> < v"
  by (auto simp: rne_def Let_def)

lemma rne_nonpos: "v \<le> 0 \<Longrightarrow> rne v \<le> 0"
proof -
  assume v: "v \<le> 0"
  then have f: "\<lfloor>v\<rfloor> \<le> 0" by (simp add: floor_le_zero)
  show ?thesis
  proof (cases "rne v = \<lfloor>v\<rfloor>")
    case True
    then show ?thesis using f by simp
  next
    case False
    then have r: "rne v = \<lfloor>v\<rfloor> + 1" and lt: "of_int \<lfloor>v\<rfloor> < v"
      using rne_cases [of v] by auto
    from lt v have "of_int \<lfloor>v\<rfloor> < (0::real)" by linarith
    then have "\<lfloor>v\<rfloor> < 0" by simp
    then show ?thesis using r by linarith
  qed
qed

lemma rne_le: "v \<le> of_int N \<Longrightarrow> rne v \<le> N"
proof -
  assume v: "v \<le> of_int N"
  show ?thesis
  proof (cases "rne v = \<lfloor>v\<rfloor>")
    case True
    then show ?thesis using v by (simp add: floor_le_iff)
  next
    case False
    then have r: "rne v = \<lfloor>v\<rfloor> + 1" and lt: "of_int \<lfloor>v\<rfloor> < v"
      using rne_cases [of v] by auto
    from lt v have "of_int \<lfloor>v\<rfloor> < (of_int N :: real)" by linarith
    then have "\<lfloor>v\<rfloor> < N" by simp
    then show ?thesis using r by simp
  qed
qed

lemma rne_ge: "of_int N \<le> v \<Longrightarrow> N \<le> rne v"
proof -
  assume v: "of_int N \<le> v"
  then have "N \<le> \<lfloor>v\<rfloor>" by (simp add: le_floor_iff)
  then show ?thesis using rne_cases [of v] by auto
qed

lemma finite_ulp_candidates:
  "finite (insert (- 1074) {e \<in> {- 1073 .. 971}. 2 powi (e + 52) \<le> \<bar>x :: real\<bar>})"
proof -
  have "{e \<in> {- 1073 .. 971}. 2 powi (e + 52) \<le> \<bar>x\<bar>} \<subseteq> {- 1073 .. 971 :: int}"
    by (rule Collect_restrict)
  then have "finite {e \<in> {- 1073 .. 971 :: int}. 2 powi (e + 52) \<le> \<bar>x\<bar>}"
    by (rule finite_subset) (rule finite_atLeastAtMost_int)
  then show ?thesis by (rule finite.insertI)
qed

lemma ulp_exp_range: "- 1074 \<le> ulp_exp x \<and> ulp_exp x \<le> 971"
proof -
  let ?S = "insert (- 1074) {e \<in> {- 1073 .. 971}. 2 powi (e + 52) \<le> \<bar>x\<bar>}"
  have "Max ?S \<in> ?S" by (rule Max_in) (rule finite_ulp_candidates, blast)
  then show ?thesis unfolding ulp_exp_def by auto
qed

lemma ulp_exp_lower: "ulp_exp x = - 1074 \<or> 2 powi (ulp_exp x + 52) \<le> \<bar>x\<bar>"
proof -
  let ?S = "insert (- 1074) {e \<in> {- 1073 .. 971}. 2 powi (e + 52) \<le> \<bar>x\<bar>}"
  have "Max ?S \<in> ?S" by (rule Max_in) (rule finite_ulp_candidates, blast)
  then show ?thesis unfolding ulp_exp_def by auto
qed

lemma ulp_exp_upper: "ulp_exp x = 971 \<or> \<bar>x\<bar> < 2 powi (ulp_exp x + 53)"
proof (rule ccontr)
  let ?S = "insert (- 1074) {e \<in> {- 1073 .. 971}. 2 powi (e + 52) \<le> \<bar>x\<bar>}"
  assume "\<not> ?thesis"
  then have ne: "ulp_exp x \<noteq> 971" and ge: "2 powi (ulp_exp x + 53) \<le> \<bar>x\<bar>" by auto
  from ne ulp_exp_range [of x] have "ulp_exp x + 1 \<in> {- 1073 .. 971}" by auto
  moreover have "2 powi (ulp_exp x + 1 + 52) \<le> \<bar>x\<bar>"
    using ge by (simp add: add.commute add.left_commute)
  ultimately have "ulp_exp x + 1 \<in> ?S" by simp
  then have "ulp_exp x + 1 \<le> Max ?S" by (rule Max_ge [OF finite_ulp_candidates])
  then show False unfolding ulp_exp_def by simp
qed

lemma ulp_exp_le:
  assumes "- 1074 \<le> k" and "\<bar>x\<bar> < 2 powi (k + 53)"
  shows "ulp_exp x \<le> k"
proof -
  let ?S = "insert (- 1074) {e \<in> {- 1073 .. 971}. 2 powi (e + 52) \<le> \<bar>x\<bar>}"
  have "e \<le> k" if "e \<in> ?S" for e
  proof (cases "e = - 1074")
    case True
    then show ?thesis using assms(1) by simp
  next
    case False
    then have "(2::real) powi (e + 52) \<le> \<bar>x\<bar>" using that by auto
    then have "(2::real) powi (e + 52) < 2 powi (k + 53)" using assms(2) by linarith
    then have "e + 52 < k + 53"
      by (metis not_le power_int_increasing one_le_numeral)
    then show ?thesis by simp
  qed
  then have "Max ?S \<le> k" by (intro Max.boundedI finite_ulp_candidates) blast+
  then show ?thesis unfolding ulp_exp_def .
qed

lemma ulp_exp_eqI:
  assumes "- 1074 \<le> e" and "e \<le> 971"
    and "e = - 1074 \<or> 2 powi (e + 52) \<le> \<bar>x\<bar>"
    and "e = 971 \<or> \<bar>x\<bar> < 2 powi (e + 53)"
  shows "ulp_exp x = e"
proof -
  let ?S = "insert (- 1074) {e \<in> {- 1073 .. 971}. 2 powi (e + 52) \<le> \<bar>x\<bar>}"
  have mem: "e \<in> ?S" using assms(1,2,3) by auto
  then have "e \<le> Max ?S" by (rule Max_ge [OF finite_ulp_candidates])
  then have ge: "e \<le> ulp_exp x" unfolding ulp_exp_def .
  have "ulp_exp x \<le> e"
  proof (cases "e = 971")
    case True
    then show ?thesis using ulp_exp_range [of x] by simp
  next
    case False
    then show ?thesis using assms(1,4) by (intro ulp_exp_le) auto
  qed
  with ge show ?thesis by simp
qed

lemma round64_zero [simp]: "round64 0 = Fin 0"
  by (simp add: round64_def Let_def)

lemma round64_exact:
  assumes "- 1074 \<le> k" and "k \<le> 971" and "\<bar>of_int m * 2 powi k\<bar> < (2::real) powi (k + 53)"
  shows "round64 (of_int m * 2 powi k) = Fin (of_int m * 2 powi k)"
proof -
  let ?z = "of_int m * (2::real) powi k"
  let ?e = "ulp_exp ?z"
  have le: "?e \<le> k" using assms(1,3) by (rule ulp_exp_le)
  have "?z / 2 powi ?e = of_int m * ((2::real) powi k / 2 powi ?e)"
    by simp
  also have "(2::real) powi k / 2 powi ?e = 2 powi (k - ?e)"
    by (simp add: power_int_diff)
  also have "(2::real) powi (k - ?e) = of_int (2 ^ nat (k - ?e))"
    using le by (simp add: power_int_def)
  finally have "?z / 2 powi ?e = of_int (m * 2 ^ nat (k - ?e))"
    by simp
  then have "of_int (rne (?z / 2 powi ?e)) * 2 powi ?e = (?z / 2 powi ?e) * 2 powi ?e"
    by (simp only: rne_of_int)
  then have undo: "of_int (rne (?z / 2 powi ?e)) * 2 powi ?e = ?z"
    by simp
  have "(2::real) powi (k + 53) \<le> 2 powi 1024"
    using assms(2) by (intro power_int_increasing) auto
  then have small: "\<bar>?z\<bar> < 2 ^ 1024"
    using assms(3) by simp
  show ?thesis
    unfolding round64_def Let_def undo using small by (auto simp: abs_less_iff)
qed

lemma round64_closed: "is_float64 (round64 x)"
proof -
  let ?e = "ulp_exp x"
  let ?n = "rne (x / 2 powi ?e)"
  let ?y = "of_int ?n * (2::real) powi ?e"
  show ?thesis
  proof (cases "2 ^ 1024 \<le> ?y \<or> ?y \<le> - (2 ^ 1024)")
    case True
    then show ?thesis by (auto simp: round64_def Let_def)
  next
    case False
    then have small: "\<bar>?y\<bar> < 2 powi 1024" by (simp add: abs_less_iff)
    have r: "round64 x = Fin ?y" using False by (auto simp: round64_def Let_def)
    have range: "- 1074 \<le> ?e" "?e \<le> 971" using ulp_exp_range [of x] by simp_all
    have nb: "\<bar>of_int ?n :: real\<bar> \<le> 2 ^ 53"
    proof (cases "?e = 971")
      case True
      have "\<bar>of_int ?n :: real\<bar> * 2 powi 971 < 2 powi 53 * 2 powi 971"
        using small True by (simp add: abs_mult flip: power_int_add)
      then have "\<bar>of_int ?n :: real\<bar> < 2 powi 53" by simp
      then show ?thesis by simp
    next
      case False
      then have "\<bar>x\<bar> < 2 powi (?e + 53)" using ulp_exp_upper [of x] by simp
      also have "\<dots> = 2 powi 53 * 2 powi ?e" by (simp add: power_int_add)
      finally have "\<bar>x\<bar> / 2 powi ?e < 2 ^ 53"
        by (simp add: pos_divide_less_eq)
      moreover have "\<bar>x / 2 powi ?e\<bar> = \<bar>x\<bar> / 2 powi ?e"
        by simp
      ultimately have lt: "\<bar>x / 2 powi ?e\<bar> < 2 ^ 53"
        by (simp only:)
      have "x / 2 powi ?e \<le> 2 ^ 53" "- (2 ^ 53) \<le> x / 2 powi ?e"
        using lt by linarith+
      then have b: "x / 2 powi ?e \<le> of_int (2 ^ 53)" "of_int (- (2 ^ 53)) \<le> x / 2 powi ?e"
        by simp_all
      have "?n \<le> 2 ^ 53" "- (2 ^ 53) \<le> ?n"
        using rne_le [OF b(1)] rne_ge [OF b(2)] by simp_all
      then show ?thesis by (simp add: abs_le_iff)
    qed
    show ?thesis
    proof (cases "\<bar>of_int ?n :: real\<bar> = 2 ^ 53")
      case False
      with nb have "\<bar>of_int ?n :: real\<bar> < 2 powi 53" by simp
      then have "\<bar>?y\<bar> < 2 powi 53 * 2 powi ?e"
        by (simp add: abs_mult)
      then have "\<bar>?y\<bar> < 2 powi (?e + 53)" by (simp add: power_int_add)
      from round64_exact [OF range this] show ?thesis by (simp add: r)
    next
      case True
      then have abs_y: "\<bar>?y\<bar> = 2 powi (?e + 53)"
        by (simp add: abs_mult power_int_add)
      have e_lt: "?e < 971"
      proof (rule ccontr)
        assume "\<not> ?e < 971"
        with range have "?e = 971" by simp
        with abs_y small show False by simp
      qed
      have n_cases: "?n = 2 ^ 53 \<or> ?n = - (2 ^ 53)"
      proof -
        from True have "\<bar>?n\<bar> = 2 ^ 53"
          by (metis of_int_abs of_int_eq_numeral_power_cancel_iff)
        then show ?thesis by linarith
      qed
      let ?m = "if 0 \<le> ?n then 2 ^ 52 else - (2 ^ 52) :: int"
      have y_eq: "?y = of_int ?m * 2 powi (?e + 1)"
        using n_cases by (auto simp: power_int_add)
      have "\<bar>of_int ?m * (2::real) powi (?e + 1)\<bar> < 2 powi (?e + 1 + 53)"
        using abs_y unfolding y_eq [symmetric]
        by (simp add: power_int_add)
      from round64_exact [OF _ _ this] range e_lt
      have "round64 (of_int ?m * 2 powi (?e + 1)) = Fin (of_int ?m * 2 powi (?e + 1))"
        by simp
      then show ?thesis unfolding r y_eq by simp
    qed
  qed
qed

lemma round64_nonpos: "x \<le> 0 \<Longrightarrow> \<not> flt (Fin 0) (round64 x)"
proof -
  assume "x \<le> 0"
  then have "x / 2 powi ulp_exp x \<le> 0"
    by (simp add: divide_nonpos_pos)
  then have "rne (x / 2 powi ulp_exp x) \<le> 0" by (rule rne_nonpos)
  then have "of_int (rne (x / 2 powi ulp_exp x)) * (2::real) powi ulp_exp x \<le> 0"
    by (simp add: mult_nonpos_nonneg)
  then show ?thesis
    by (auto simp: round64_def Let_def)
qed

lemma round64_eval:
  assumes "- 1074 \<le> e" and "e \<le> 971"
    and "e = - 1074 \<or> 2 powi (e + 52) \<le> \<bar>x\<bar>"
    and "e = 971 \<or> \<bar>x\<bar> < 2 powi (e + 53)"
  shows "round64 x =
     (let y = of_int (rne (x / 2 powi e)) * 2 powi e
      in if 2 ^ 1024 \<le> y then PInf else if y \<le> - (2 ^ 1024) then NInf else Fin y)"
  by (simp add: round64_def ulp_exp_eqI [OF assms] Let_def)

text \<open>Every operation yields a number of the format, an infinity or a NaN.\<close>

lemma is_float64_zero [simp]: "is_float64 (Fin 0)"
  by simp

lemma fmul_closed: "is_float64 (fmul a b)"
  by (cases a; cases b) (simp_all add: round64_closed)


lemma fadd_zero_left: "is_float64 w \<Longrightarrow> fadd (Fin 0) w = w"
  by (cases w) simp_all

lemma fdiv_one: "is_float64 w \<Longrightarrow> fdiv w (Fin 1) = w"
  by (cases w) simp_all

text \<open>Dividing by a positive total never makes a weight positive that was not.\<close>

lemma fdiv_positive:
  assumes "flt (Fin 0) tot" and "flt (Fin 0) (fdiv w tot)"
  shows "flt (Fin 0) w"
proof (cases tot)
  case (Fin t)
  with assms(1) have t: "0 < t" by simp
  show ?thesis
  proof (cases w)
    case (Fin x)
    show ?thesis
    proof (rule ccontr)
      assume "\<not> flt (Fin 0) w"
      then have "x \<le> 0" using Fin by simp
      then have "x / t \<le> 0" using t by (simp add: divide_nonpos_pos)
      then have "\<not> flt (Fin 0) (round64 (x / t))" by (rule round64_nonpos)
      then show False using assms(2) Fin \<open>tot = Fin t\<close> t by simp
    qed
  next
    case PInf
    then show ?thesis by simp
  next
    case NInf
    then show ?thesis using assms(2) Fin t by simp
  next
    case NaN
    then show ?thesis using assms(2) by simp
  qed
next
  case PInf
  then show ?thesis using assms(2) by (cases w) simp_all
next
  case NInf
  then show ?thesis using assms(1) by simp
next
  case NaN
  then show ?thesis using assms(1) by simp
qed

lemma not_fle_zero: "flt (Fin 0) r \<Longrightarrow> \<not> fle r (Fin 0)"
  by (cases r) simp_all

section \<open>Values of concrete roundings\<close>

lemma round64_values [simp]:
  "round64 1 = Fin 1"
  "round64 2 = Fin 2"
  "round64 3 = Fin 3"
  "round64 6 = Fin 6"
  "round64 (1 / 2) = Fin (1 / 2)"
  "round64 (1 / 4) = Fin (1 / 4)"
  by (subst round64_eval [of "- 52"], simp_all add: rne_def,
      subst round64_eval [of "- 51"], simp_all add: rne_def,
      subst round64_eval [of "- 51"], simp_all add: rne_def,
      subst round64_eval [of "- 50"], simp_all add: rne_def,
      subst round64_eval [of "- 53"], simp_all add: rne_def,
      subst round64_eval [of "- 54"], simp_all add: rne_def)

lemma f02_value: "f02 = Fin (3602879701896397 / 18014398509481984)"
  unfolding f02_def by (subst round64_eval [of "- 55"]) (simp_all add: rne_def)

lemma f05_value: "f05 = Fin (1 / 2)"
  by (simp add: f05_def)

lemma f09_value: "f09 = Fin (8106479329266893 / 9007199254740992)"
  unfolding f09_def by (subst round64_eval [of "- 53"]) (simp_all add: rne_def)

lemma f03_value: "f03 = Fin (5404319552844595 / 18014398509481984)"
  unfolding f03_def by (subst round64_eval [of "- 54"]) (simp_all add: rne_def)

lemma f07_value: "f07 = Fin (3152519739159347 / 4503599627370496)"
  unfolding f07_def by (subst round64_eval [of "- 53"]) (simp_all add: rne_def)

lemma is_float64_constants [simp]:
  "is_float64 f02" "is_float64 f05" "is_float64 f09" "is_float64 f03" "is_float64 f07"
  by (simp_all add: f02_def f05_def f09_def f03_def f07_def round64_closed)

lemma round64_below_one: "round64 (18014398509481983 / 18014398509481984) = Fin 1"
  by (subst round64_eval [of "- 53"]) (simp_all add: rne_def)

lemma fadd_f03_f07: "fadd f03 f07 = Fin 1" "fadd f07 f03 = Fin 1"
  by (simp_all add: f03_value f07_value round64_below_one)

section \<open>Reading the concrete heap\<close>

lemma two_objects_simps [simp]:
  "CoordDist (objs (two_objects dA dB) 0) = 0"
  "CoordDist (objs (two_objects dA dB) (Suc 0)) = Suc 0"
  "IsCollapsed (objs (two_objects dA dB) p) = False"
  "maps (two_objects dA dB) 0 = dA"
  "maps (two_objects dA dB) (Suc 0) = dB"
  by (simp_all add: two_objects_def NewQuantumObject_def)

lemma fixed_norm_simps [simp]:
  "sumOrder (fixed_norm ks) = ks"
  "scaleOrder (fixed_norm ks) = ks"
  by (simp_all add: fixed_norm_def)

lemma fixed_env_simps [simp]:
  "normOrders (fixed_env r ks) = fixed_norm ks"
  "draw (fixed_env r ks) = r"
  "scanOrder (fixed_env r ks) = ks"
  by (simp_all add: fixed_env_def)

section \<open>Frame and invariance lemmas\<close>

lemma NormalizeDistribution_objs [simp]: "objs (NormalizeDistribution e q s) = objs s"
  by (simp add: NormalizeDistribution_def Let_def)

lemma NormalizeDistribution_nxt [simp]: "nxt (NormalizeDistribution e q s) = nxt s"
  by (simp add: NormalizeDistribution_def Let_def)

lemma Collapse_resolved_noop: "IsCollapsed (objs s q) \<Longrightarrow> Collapse e q s = s"
  by (simp add: Collapse_def)

lemma Collapse_keeps_resolved:
  "IsCollapsed (objs s p) \<Longrightarrow>
     IsCollapsed (objs (Collapse e q s) p) \<and>
     FinalCoord (objs (Collapse e q s) p) = FinalCoord (objs s p)"
  by (cases "p = q") (simp_all add: Collapse_def Let_def split: option.splits)

lemma install_keeps_flags:
  "IsCollapsed (objs (MeasureInteraction_install n1 n2 a b s) p) = IsCollapsed (objs s p) \<and>
   FinalCoord (objs (MeasureInteraction_install n1 n2 a b s) p) = FinalCoord (objs s p)"
  by (simp add: MeasureInteraction_install_def Let_def)

lemma MeasureInteraction_keeps_resolved:
  "IsCollapsed (objs s p) \<Longrightarrow>
     IsCollapsed (objs (MeasureInteraction e w a b s) p) \<and>
     FinalCoord (objs (MeasureInteraction e w a b s) p) = FinalCoord (objs s p)"
  by (simp add: MeasureInteraction_def Let_def Collapse_keeps_resolved install_keeps_flags)

lemma CollapseAll_loop_keeps_resolved:
  "IsCollapsed (objs s p) \<Longrightarrow>
     IsCollapsed (objs (CollapseAll_loop es i ps s) p) \<and>
     FinalCoord (objs (CollapseAll_loop es i ps s) p) = FinalCoord (objs s p)"
proof (induction ps arbitrary: i s)
  case Nil
  then show ?case by simp
next
  case (Cons obj ps)
  from Cons.prems have step:
    "IsCollapsed (objs (Collapse (es i) obj s) p)"
    "FinalCoord (objs (Collapse (es i) obj s) p) = FinalCoord (objs s p)"
    using Collapse_keeps_resolved [of s p "es i" obj] by simp_all
  from Cons.IH [OF step(1), of "Suc i"] step(2) show ?case by simp
qed

section \<open>Resolution is irreversible\<close>

text \<open>
  Claim C7. On an object that is already collapsed, \<open>Collapse\<close> returns the heap as it is,
  whatever the orders and the number drawn. And none of \<open>Collapse\<close>,
  \<open>MeasureInteraction\<close> and \<open>CollapseAll\<close>, applied to any objects (the same one, another
  one, objects that share tables), clears the \<open>IsCollapsed\<close> flag of a collapsed object or
  changes its \<open>FinalCoord\<close>.
\<close>

theorem resolution_irreversible:
  "IsCollapsed (objs s p) \<Longrightarrow>
     Collapse e p s = s \<and>
     (IsCollapsed (objs (Collapse e q s) p) \<and>
      FinalCoord (objs (Collapse e q s) p) = FinalCoord (objs s p)) \<and>
     (IsCollapsed (objs (MeasureInteraction ie w a b s) p) \<and>
      FinalCoord (objs (MeasureInteraction ie w a b s) p) = FinalCoord (objs s p)) \<and>
     (IsCollapsed (objs (CollapseAll es w' s) p) \<and>
      FinalCoord (objs (CollapseAll es w' s) p) = FinalCoord (objs s p))"
  by (simp add: Collapse_resolved_noop Collapse_keeps_resolved
      MeasureInteraction_keeps_resolved CollapseAll_loop_keeps_resolved CollapseAll_def)

theorem resolution_irreversible_witness:
  "IsCollapsed (objs (collapsed_at 0 (3, 3) (two_objects uniform2 uniform2)) 0) \<and>
   Collapse (fixed_env f09 diag2) 0 (collapsed_at 0 (3, 3) (two_objects uniform2 uniform2))
     = collapsed_at 0 (3, 3) (two_objects uniform2 uniform2) \<and>
   FinalCoord (objs (Collapse (fixed_env f09 diag2) 1
     (collapsed_at 0 (3, 3) (two_objects uniform2 uniform2))) 0) = (3, 3) \<and>
   FinalCoord (objs (MeasureInteraction (interact_env diag2 diag2 diag2 f02 f09)
     (NewWorld 10 10) 0 1 (collapsed_at 0 (3, 3) (two_objects uniform2 uniform2))) 0) = (3, 3) \<and>
   FinalCoord (objs (CollapseAll (\<lambda>i. fixed_env f09 diag2)
     (AddQuantumObject (AddQuantumObject (NewWorld 10 10) 0) 1)
     (collapsed_at 0 (3, 3) (two_objects uniform2 uniform2))) 0) = (3, 3)"
proof -
  have h: "IsCollapsed (objs (collapsed_at 0 (3, 3) (two_objects uniform2 uniform2)) 0)"
    by (simp add: collapsed_at_def)
  have fc: "FinalCoord (objs (collapsed_at 0 (3, 3) (two_objects uniform2 uniform2)) 0) = (3, 3)"
    by (simp add: collapsed_at_def)
  show ?thesis
    using h fc
      resolution_irreversible [OF h, where e = "fixed_env f09 diag2" and q = 1
        and ie = "interact_env diag2 diag2 diag2 f02 f09" and w = "NewWorld 10 10"
        and a = 0 and b = 1 and es = "\<lambda>i. fixed_env f09 diag2"
        and w' = "AddQuantumObject (AddQuantumObject (NewWorld 10 10) 0) 1"]
    by simp
qed

section \<open>Normalisation\<close>

lemma weight_at_Some [simp]: "Mapping.lookup d c = Some p \<Longrightarrow> weight_at d c = p"
  by (simp add: weight_at_def Mapping.lookup_default_def)

lemma weight_at_None [simp]: "Mapping.lookup d c = None \<Longrightarrow> weight_at d c = Fin 0"
  by (simp add: weight_at_def Mapping.lookup_default_def)

text \<open>The first loop computes the rounded sum of the weights in the order of its visit.\<close>

lemma total_foldl:
  "set ks \<subseteq> Mapping.keys d \<Longrightarrow>
     NormalizeDistribution_total d tot ks = foldl fadd tot (map (weight_at d) ks)"
proof (induction ks arbitrary: tot)
  case Nil
  then show ?case by simp
next
  case (Cons k ks)
  then obtain w where w: "Mapping.lookup d k = Some w"
    by (auto simp: keys_dom_lookup)
  from Cons.prems have "set ks \<subseteq> Mapping.keys d" by simp
  from Cons.IH [OF this] w show ?case by simp
qed

lemma total_range_order:
  "range_order ks d \<Longrightarrow> NormalizeDistribution_total d (Fin 0) ks = float_total d ks"
  by (simp add: range_order_def total_foldl float_total_def)

text \<open>The second loop keeps the keys, and divides each weight once when no key repeats.\<close>

lemma keys_scale [simp]: "Mapping.keys (NormalizeDistribution_scale tot d ks) = Mapping.keys d"
proof (induction ks arbitrary: d)
  case Nil
  then show ?case by simp
next
  case (Cons k ks)
  show ?case
  proof (cases "Mapping.lookup d k")
    case None
    then show ?thesis using Cons.IH by simp
  next
    case (Some w)
    then have "k \<in> Mapping.keys d" by (simp add: keys_dom_lookup domI)
    then show ?thesis using Some Cons.IH by (simp add: insert_absorb)
  qed
qed

lemma lookup_scale_distinct:
  "distinct ks \<Longrightarrow>
     Mapping.lookup (NormalizeDistribution_scale tot d ks) c =
       (if c \<in> set ks then map_option (\<lambda>w. fdiv w tot) (Mapping.lookup d c) else Mapping.lookup d c)"
proof (induction ks arbitrary: d)
  case Nil
  then show ?case by simp
next
  case (Cons k ks)
  then show ?case
    by (cases "Mapping.lookup d k") (auto simp: Mapping.lookup_update')
qed

lemma lookup_scale_range_order:
  assumes "range_order ks d"
  shows "Mapping.lookup (NormalizeDistribution_scale tot d ks) c =
           map_option (\<lambda>w. fdiv w tot) (Mapping.lookup d c)"
proof (cases "c \<in> set ks")
  case True
  then show ?thesis using assms by (simp add: range_order_def lookup_scale_distinct)
next
  case False
  then have "Mapping.lookup d c = None"
    using assms by (auto simp: range_order_def keys_dom_lookup)
  then show ?thesis using assms False by (simp add: range_order_def lookup_scale_distinct)
qed

lemma NormalizeDistribution_keys [simp]:
  "Mapping.keys (maps (NormalizeDistribution e q s) m) = Mapping.keys (maps s m)"
  by (simp add: NormalizeDistribution_def Let_def)

lemma NormalizeDistribution_positive:
  assumes "range_order (sumOrder e) (maps s (CoordDist (objs s q)))"
    and "range_order (scaleOrder e) (maps s (CoordDist (objs s q)))"
    and "flt (Fin 0) (float_total (maps s (CoordDist (objs s q))) (sumOrder e))"
  shows "Mapping.lookup (maps (NormalizeDistribution e q s) (CoordDist (objs s q))) c =
           map_option (\<lambda>w. fdiv w (float_total (maps s (CoordDist (objs s q))) (sumOrder e)))
             (Mapping.lookup (maps s (CoordDist (objs s q))) c)"
  using assms
  by (simp add: NormalizeDistribution_def Let_def total_range_order lookup_scale_range_order)

lemma NormalizeDistribution_not_positive:
  assumes "range_order (sumOrder e) (maps s (CoordDist (objs s q)))"
    and "\<not> flt (Fin 0) (float_total (maps s (CoordDist (objs s q))) (sumOrder e))"
  shows "NormalizeDistribution e q s = s"
  using assms by (simp add: NormalizeDistribution_def Let_def total_range_order)

lemma NormalizeDistribution_other_tables:
  "m \<noteq> CoordDist (objs s q) \<Longrightarrow> maps (NormalizeDistribution e q s) m = maps s m"
  by (simp add: NormalizeDistribution_def Let_def)


subsection \<open>Three tables, normalised\<close>

lemma float_total_diag2:
  "float_total d diag2 = fadd (fadd (Fin 0) (weight_at d (0, 0))) (weight_at d (1, 1))"
  by (simp add: float_total_def diag2_def)

lemma range_order_uniform2: "range_order diag2 uniform2"
  by (simp add: range_order_def diag2_def uniform2_def insert_commute)

lemma float_total_uniform2: "float_total uniform2 diag2 = Fin 2"
  by (simp add: float_total_def uniform2_def diag2_def weight_at_def Mapping.lookup_default_def)

lemma range_order_zero00: "range_order [(0, 0)] zero00"
  by (simp add: range_order_def zero00_def)

lemma float_total_zero00: "float_total zero00 [(0, 0)] = Fin 0"
  by (simp add: float_total_def zero00_def weight_at_def Mapping.lookup_default_def)

lemma range_order_huge2: "range_order diag2 huge2"
  by (simp add: range_order_def diag2_def huge2_def insert_commute)

lemma huge_facts [simp]:
  "fadd (Fin 0) huge = huge" "fadd huge huge = PInf"
  unfolding huge_def
  by (simp, subst round64_eval [of 971], simp_all add: rne_def,
      subst round64_eval [of 971], simp_all add: rne_def)

lemma fdiv_huge_PInf [simp]: "fdiv huge PInf = Fin 0"
  by (simp add: huge_def)

lemma float_total_huge2: "float_total huge2 diag2 = PInf"
  by (simp add: float_total_def huge2_def diag2_def weight_at_def Mapping.lookup_default_def)


lemma float_total_one_two_three: "float_total one_two_three diag3 = Fin 6"
  by (simp add: float_total_def one_two_three_def diag3_def weight_at_def
      Mapping.lookup_default_def)

lemma round64_sixth: "round64 (1 / 6) = Fin (6004799503160661 / 36028797018963968)"
  by (subst round64_eval [of "- 55"]) (simp_all add: rne_def)

lemma round64_third: "round64 (1 / 3) = Fin (6004799503160661 / 18014398509481984)"
  by (subst round64_eval [of "- 54"]) (simp_all add: rne_def)

lemma round64_third_exact:
  "round64 (6004799503160661 / 18014398509481984) = Fin (6004799503160661 / 18014398509481984)"
  by (subst round64_eval [of "- 54"]) (simp_all add: rne_def)

lemma round64_third_plus_half:
  "round64 (15011998757901653 / 18014398509481984)
     = Fin (3752999689475413 / 4503599627370496)"
  by (subst round64_eval [of "- 53"]) (simp_all add: rne_def)

lemma round64_plus_sixth:
  "round64 (36028797018963965 / 36028797018963968)
     = Fin (9007199254740991 / 9007199254740992)"
  by (subst round64_eval [of "- 53"]) (simp_all add: rne_def)


lemma normalised_huge2:
  "Mapping.lookup (maps (NormalizeDistribution (fixed_norm diag2) 0 (two_objects huge2 point11)) 0)
     (0, 0) = Some (Fin 0)"
  "Mapping.lookup (maps (NormalizeDistribution (fixed_norm diag2) 0 (two_objects huge2 point11)) 0)
     (1, 1) = Some (Fin 0)"
  by (simp_all add: NormalizeDistribution_def Let_def huge2_def diag2_def)

lemma normalised_123:
  "Mapping.lookup (maps (NormalizeDistribution (fixed_norm diag3) 0 (two_objects one_two_three point11)) 0)
     (0, 0) = Some (Fin (6004799503160661 / 36028797018963968))"
  "Mapping.lookup (maps (NormalizeDistribution (fixed_norm diag3) 0 (two_objects one_two_three point11)) 0)
     (1, 1) = Some (Fin (6004799503160661 / 18014398509481984))"
  "Mapping.lookup (maps (NormalizeDistribution (fixed_norm diag3) 0 (two_objects one_two_three point11)) 0)
     (2, 2) = Some (Fin (1 / 2))"
  by (simp_all add: NormalizeDistribution_def Let_def one_two_three_def diag3_def round64_sixth
      round64_third)

lemma float_total_normalised_123:
  "float_total (maps (NormalizeDistribution (fixed_norm diag3) 0 (two_objects one_two_three point11)) 0)
     [(1, 1), (2, 2), (0, 0)] = Fin (9007199254740991 / 9007199254740992)"
  by (simp add: float_total_def normalised_123 round64_third_exact round64_third_plus_half
      round64_plus_sixth)

text \<open>
  Claim C5, as stated, fails: the weights after \<open>NormalizeDistribution\<close> need not sum to
  \<open>1\<close>. The sum of two weights \<open>2 ^ 1023\<close> overflows to \<open>+Inf\<close>, which is positive,
  and both quotients are \<open>0\<close>. And the quotients of \<open>1\<close>, \<open>2\<close>, \<open>3\<close> by their total
  \<open>6\<close> are rounded: summed in the order \<open>(1,1)\<close>, \<open>(2,2)\<close>, \<open>(0,0)\<close> they give
  \<open>1 - 2 powi (- 53)\<close>.
\<close>

theorem NormalizeDistribution_sum_not_one:
  "float_total huge2 diag2 = PInf \<and> flt (Fin 0) PInf \<and>
   Mapping.lookup (maps (NormalizeDistribution (fixed_norm diag2) 0 (two_objects huge2 point11)) 0)
     (0, 0) = Some (Fin 0) \<and>
   Mapping.lookup (maps (NormalizeDistribution (fixed_norm diag2) 0 (two_objects huge2 point11)) 0)
     (1, 1) = Some (Fin 0) \<and>
   float_total (maps (NormalizeDistribution (fixed_norm diag2) 0 (two_objects huge2 point11)) 0) diag2
     = Fin 0 \<and>
   float_total one_two_three diag3 = Fin 6 \<and>
   float_total (maps (NormalizeDistribution (fixed_norm diag3) 0 (two_objects one_two_three point11)) 0)
     [(1, 1), (2, 2), (0, 0)] = Fin (9007199254740991 / 9007199254740992)"
proof -
  have "float_total (maps (NormalizeDistribution (fixed_norm diag2) 0 (two_objects huge2 point11)) 0)
          diag2 = Fin 0"
    by (simp only: float_total_diag2 weight_at_Some [OF normalised_huge2(1)]
        weight_at_Some [OF normalised_huge2(2)]) simp
  then show ?thesis
    by (simp add: float_total_huge2 normalised_huge2 float_total_one_two_three
        float_total_normalised_123)
qed

text \<open>
  Claim C5, amended. Let the two loops of \<open>NormalizeDistribution\<close> visit every key of the
  object's table exactly once. The total is the \<^verbatim>\<open>float64\<close> sum of the weights in the
  order of the first loop. If it is positive, then afterwards the table has the same keys
  and every weight \<open>w\<close> has become the \<^verbatim>\<open>float64\<close> quotient \<open>w / total\<close>. If it is not
  positive, in particular if it is \<open>0\<close>, the heap is unchanged. In both cases the objects
  and all other tables are as before. (That the new weights sum to \<open>1\<close> is not part of
  the statement.)
\<close>

theorem NormalizeDistribution_spec:
  assumes "range_order (sumOrder e) (maps s (CoordDist (objs s q)))"
    and "range_order (scaleOrder e) (maps s (CoordDist (objs s q)))"
  shows "(flt (Fin 0) (float_total (maps s (CoordDist (objs s q))) (sumOrder e)) \<longrightarrow>
            (\<forall>c. Mapping.lookup (maps (NormalizeDistribution e q s) (CoordDist (objs s q))) c =
                   map_option
                     (\<lambda>w. fdiv w (float_total (maps s (CoordDist (objs s q))) (sumOrder e)))
                     (Mapping.lookup (maps s (CoordDist (objs s q))) c))) \<and>
         (\<not> flt (Fin 0) (float_total (maps s (CoordDist (objs s q))) (sumOrder e)) \<longrightarrow>
            NormalizeDistribution e q s = s) \<and>
         (float_total (maps s (CoordDist (objs s q))) (sumOrder e) = Fin 0 \<longrightarrow>
            NormalizeDistribution e q s = s) \<and>
         objs (NormalizeDistribution e q s) = objs s \<and>
         (\<forall>m. m \<noteq> CoordDist (objs s q) \<longrightarrow> maps (NormalizeDistribution e q s) m = maps s m)"
proof -
  have zero: "NormalizeDistribution e q s = s"
    if "float_total (maps s (CoordDist (objs s q))) (sumOrder e) = Fin 0"
    using NormalizeDistribution_not_positive [OF assms(1)] that by simp
  show ?thesis
    using NormalizeDistribution_positive [OF assms] NormalizeDistribution_not_positive [OF assms(1)]
      zero
    by (simp add: NormalizeDistribution_other_tables)
qed

theorem NormalizeDistribution_spec_witness:
  "range_order diag2 uniform2 \<and> float_total uniform2 diag2 = Fin 2 \<and>
   Mapping.lookup (maps (NormalizeDistribution (fixed_norm diag2) 0 (two_objects uniform2 point11)) 0)
     (1, 1) = Some (Fin (1 / 2)) \<and>
   range_order [(0, 0)] zero00 \<and> float_total zero00 [(0, 0)] = Fin 0 \<and>
   NormalizeDistribution (fixed_norm [(0, 0)]) 0 (two_objects zero00 point11)
     = two_objects zero00 point11"
proof -
  let ?s = "two_objects uniform2 point11"
  let ?z = "two_objects zero00 point11"
  have pos: "range_order (sumOrder (fixed_norm diag2)) (maps ?s (CoordDist (objs ?s 0)))"
    "range_order (scaleOrder (fixed_norm diag2)) (maps ?s (CoordDist (objs ?s 0)))"
    by (simp_all add: range_order_uniform2)
  have zero: "range_order (sumOrder (fixed_norm [(0, 0)])) (maps ?z (CoordDist (objs ?z 0)))"
    "range_order (scaleOrder (fixed_norm [(0, 0)])) (maps ?z (CoordDist (objs ?z 0)))"
    by (simp_all add: range_order_zero00)
  have at11: "Mapping.lookup uniform2 (1, 1) = Some (Fin 1)"
    by (simp add: uniform2_def)
  from NormalizeDistribution_spec [OF pos] have
    "Mapping.lookup (maps (NormalizeDistribution (fixed_norm diag2) 0 ?s) 0) (1, 1)
       = Some (Fin (1 / 2))"
    by (simp add: float_total_uniform2 at11)
  moreover from NormalizeDistribution_spec [OF zero] have
    "NormalizeDistribution (fixed_norm [(0, 0)]) 0 ?z = ?z"
    by (simp add: float_total_zero00)
  ultimately show ?thesis
    by (simp add: range_order_uniform2 float_total_uniform2 range_order_zero00 float_total_zero00)
qed





section \<open>The weighted draw\<close>

lemma Collapse_scan_in_keys:
  "Collapse_scan r d acc ks = Some c \<Longrightarrow> c \<in> Mapping.keys d \<and> c \<in> set ks"
  by (induction ks arbitrary: acc)
     (auto simp: Let_def keys_dom_lookup split: option.splits if_splits)

text \<open>
  Claim C10. When \<open>Collapse\<close> takes an object from uncollapsed to collapsed, the
  coordinate it stores is a key of the object's table: of the table as it is when the
  number is drawn (after the normalisation), which has the keys the table had on entry.
  This holds for every order and every number drawn.
\<close>

theorem Collapse_picks_key:
  "\<not> IsCollapsed (objs s q) \<Longrightarrow> IsCollapsed (objs (Collapse e q s) q) \<Longrightarrow>
     FinalCoord (objs (Collapse e q s) q)
       \<in> Mapping.keys (maps (NormalizeDistribution (normOrders e) q s) (CoordDist (objs s q))) \<and>
     FinalCoord (objs (Collapse e q s) q) \<in> Mapping.keys (maps s (CoordDist (objs s q)))"
  by (auto simp: Collapse_def Let_def split: option.splits dest: Collapse_scan_in_keys)

subsection \<open>The table \<open>{(0,0): 0.3, (1,0): 0.7}\<close>\<close>

lemma constants_compared [simp]:
  "fle f02 f03" "fle f02 f07" "\<not> fle f05 f03" "fle f05 f07" "fle f05 (Fin 1)" "fle f02 (Fin 1)"
  "flt (Fin 0) f02" "flt (Fin 0) f09"
  by (simp_all add: f02_value f03_value f05_value f07_value f09_value)

lemma constants_added [simp]:
  "fadd (Fin 0) f03 = f03" "fadd (Fin 0) f07 = f07"
  "fdiv f03 (Fin 1) = f03" "fdiv f07 (Fin 1) = f07"
  by (simp_all add: fadd_zero_left fdiv_one)

lemma range_order_dist_37:
  "range_order [(0, 0), (1, 0)] dist_37" "range_order [(1, 0), (0, 0)] dist_37"
  by (simp_all add: range_order_def dist_37_def insert_commute)

lemma float_total_dist_37:
  "float_total dist_37 [(0, 0), (1, 0)] = Fin 1" "float_total dist_37 [(1, 0), (0, 0)] = Fin 1"
  by (simp_all add: float_total_def dist_37_def weight_at_def Mapping.lookup_default_def
      fadd_f03_f07)

lemma NormalizeDistribution_dist_37:
  assumes "maps s (CoordDist (objs s q)) = dist_37"
    and "range_order (sumOrder e) dist_37" and "range_order (scaleOrder e) dist_37"
  shows "maps (NormalizeDistribution e q s) (CoordDist (objs s q)) = dist_37"
proof -
  have ks: "sumOrder e = [(0, 0), (1, 0)] \<or> sumOrder e = [(1, 0), (0, 0)]"
  proof -
    from assms(2) have d: "distinct (sumOrder e)" and st: "set (sumOrder e) = {(0, 0), (1, 0)}"
      by (auto simp: range_order_def dist_37_def)
    from d st have "length (sumOrder e) = 2"
      by (metis distinct_card card_2_iff Pair_inject zero_neq_one)
    then obtain a b where ab: "sumOrder e = [a, b]"
      by (auto simp: length_Suc_conv numeral_2_eq_2)
    with d st show ?thesis by auto
  qed
  have tot: "float_total dist_37 (sumOrder e) = Fin 1"
    using ks float_total_dist_37 by auto
  have pos: "flt (Fin 0) (float_total (maps s (CoordDist (objs s q))) (sumOrder e))"
    by (simp add: assms(1) tot)
  show ?thesis
  proof (rule mapping_eqI)
    fix c
    have "Mapping.lookup (maps (NormalizeDistribution e q s) (CoordDist (objs s q))) c =
            map_option (\<lambda>w. fdiv w (float_total (maps s (CoordDist (objs s q))) (sumOrder e)))
               (Mapping.lookup (maps s (CoordDist (objs s q))) c)"
      by (rule NormalizeDistribution_positive) (simp_all add: assms tot)
    then have "Mapping.lookup (maps (NormalizeDistribution e q s) (CoordDist (objs s q))) c
                 = map_option (\<lambda>w. fdiv w (Fin 1)) (Mapping.lookup dist_37 c)"
      by (simp add: assms(1) tot)
    also have "\<dots> = Mapping.lookup dist_37 c"
      by (simp add: dist_37_def Mapping.lookup_update')
    finally show "Mapping.lookup (maps (NormalizeDistribution e q s) (CoordDist (objs s q))) c
                 = Mapping.lookup dist_37 c" .
  qed
qed

lemma Collapse_dist_37_ordered:
  assumes "\<not> IsCollapsed (objs s q)" and "maps s (CoordDist (objs s q)) = dist_37"
    and "range_order (sumOrder (normOrders e)) dist_37"
    and "range_order (scaleOrder (normOrders e)) dist_37"
    and "scanOrder e = [(0, 0), (1, 0)]"
  shows "draw e = f02 \<Longrightarrow>
           IsCollapsed (objs (Collapse e q s) q) \<and> FinalCoord (objs (Collapse e q s) q) = (0, 0)"
    and "draw e = f05 \<Longrightarrow>
           IsCollapsed (objs (Collapse e q s) q) \<and> FinalCoord (objs (Collapse e q s) q) = (1, 0)"
  using assms(1)
  by (simp_all add: Collapse_def Let_def NormalizeDistribution_dist_37 [OF assms(2,3,4)] assms(5)
      dist_37_def fadd_f03_f07)

lemma Collapse_dist_37:
  "IsCollapsed (objs (Collapse (fixed_env f05 [(0, 0), (1, 0)]) 0 (two_objects dist_37 point11)) 0)"
  "FinalCoord (objs (Collapse (fixed_env f05 [(0, 0), (1, 0)]) 0 (two_objects dist_37 point11)) 0)
     = (1, 0)"
  using Collapse_dist_37_ordered(2)
    [of "two_objects dist_37 point11" 0 "fixed_env f05 [(0, 0), (1, 0)]"]
  by (simp_all add: range_order_dist_37)

theorem Collapse_picks_key_witness:
  "\<not> IsCollapsed (objs (two_objects dist_37 point11) 0) \<and>
   IsCollapsed (objs (Collapse (fixed_env f05 [(0, 0), (1, 0)]) 0 (two_objects dist_37 point11)) 0) \<and>
   FinalCoord (objs (Collapse (fixed_env f05 [(0, 0), (1, 0)]) 0 (two_objects dist_37 point11)) 0)
     \<in> Mapping.keys (maps (two_objects dist_37 point11) 0)"
proof -
  have h1: "\<not> IsCollapsed (objs (two_objects dist_37 point11) 0)"
    by simp
  note h2 = Collapse_dist_37(1)
  show ?thesis
    using Collapse_picks_key [OF h1 h2] h1 h2 by simp
qed

subsection \<open>Degenerate tables\<close>

lemma all_zero_lookup:
  "\<forall>k \<in> Mapping.keys d. Mapping.lookup d k = Some (Fin 0) \<Longrightarrow> Mapping.lookup d k = Some w \<Longrightarrow>
     w = Fin 0"
  using keys_dom_lookup [of d] by (force simp: dom_def)

lemma total_all_zero:
  "\<forall>k \<in> Mapping.keys d. Mapping.lookup d k = Some (Fin 0) \<Longrightarrow>
     NormalizeDistribution_total d (Fin 0) ks = Fin 0"
  by (induction ks) (auto split: option.splits dest: all_zero_lookup)

lemma scan_all_zero:
  "\<forall>k \<in> Mapping.keys d. Mapping.lookup d k = Some (Fin 0) \<Longrightarrow> flt (Fin 0) r \<Longrightarrow>
     Collapse_scan r d (Fin 0) ks = None"
  by (induction ks)
     (auto simp: Let_def not_fle_zero split: option.splits dest: all_zero_lookup)

lemma scan_empty:
  "Mapping.keys d = {} \<Longrightarrow> Collapse_scan r d acc ks = None"
  by (induction ks arbitrary: acc) (auto simp: keys_dom_lookup Let_def split: option.splits)

text \<open>
  Claim C3, as stated, fails: the loop tests \<^verbatim>\<open>r <= cumulative\<close>, so when the number
  drawn is \<open>0\<close> (which \<^verbatim>\<open>rand.Float64\<close> can return) and the table has an entry, the first
  entry visited is selected even if all weights are \<open>0\<close>.
\<close>

theorem Collapse_zero_draw:
  "Mapping.keys zero00 = {(0, 0)} \<and> Mapping.lookup zero00 (0, 0) = Some (Fin 0) \<and>
   draw (fixed_env (Fin 0) [(0, 0)]) = Fin 0 \<and>
   \<not> IsCollapsed (objs (two_objects zero00 point11) 0) \<and>
   IsCollapsed (objs (Collapse (fixed_env (Fin 0) [(0, 0)]) 0 (two_objects zero00 point11)) 0) \<and>
   FinalCoord (objs (Collapse (fixed_env (Fin 0) [(0, 0)]) 0 (two_objects zero00 point11)) 0) = (0, 0)"
  by (simp add: Collapse_def NormalizeDistribution_def zero00_def Let_def)

text \<open>
  Claim C3, amended. \<open>Collapse\<close> on an uncollapsed object leaves the whole heap unchanged,
  and so the object uncollapsed and its \<open>FinalCoord\<close> unassigned, when the table is empty
  (for every number drawn), and when all weights are \<open>0\<close> and the number drawn is
  positive. This holds for every order. (No operation of \<open>Collapse\<close> can panic on a valid
  pointer: float division does not, and the only map writes are to keys being ranged
  over.)
\<close>

theorem Collapse_degenerate:
  "\<not> IsCollapsed (objs s q) \<Longrightarrow>
   Mapping.keys (maps s (CoordDist (objs s q))) = {} \<or>
     (\<forall>k \<in> Mapping.keys (maps s (CoordDist (objs s q))).
        Mapping.lookup (maps s (CoordDist (objs s q))) k = Some (Fin 0)) \<and> flt (Fin 0) (draw e) \<Longrightarrow>
   Collapse e q s = s \<and> \<not> IsCollapsed (objs (Collapse e q s) q)"
proof -
  assume nc: "\<not> IsCollapsed (objs s q)"
  assume deg: "Mapping.keys (maps s (CoordDist (objs s q))) = {} \<or>
     (\<forall>k \<in> Mapping.keys (maps s (CoordDist (objs s q))).
        Mapping.lookup (maps s (CoordDist (objs s q))) k = Some (Fin 0)) \<and> flt (Fin 0) (draw e)"
  let ?d = "maps s (CoordDist (objs s q))"
  have zero: "\<forall>k \<in> Mapping.keys ?d. Mapping.lookup ?d k = Some (Fin 0)"
    using deg by auto
  have norm: "NormalizeDistribution (normOrders e) q s = s"
    by (simp add: NormalizeDistribution_def Let_def total_all_zero [OF zero])
  have scan: "Collapse_scan (draw e) ?d (Fin 0) (scanOrder e) = None"
    using deg scan_empty scan_all_zero by blast
  have "Collapse e q s = s"
    using nc by (simp add: Collapse_def Let_def norm scan)
  then show ?thesis using nc by simp
qed

theorem Collapse_degenerate_witness:
  "\<not> IsCollapsed (objs (two_objects zero00 Mapping.empty) 0) \<and>
   Mapping.lookup (maps (two_objects zero00 Mapping.empty) 0) (0, 0) = Some (Fin 0) \<and>
   Mapping.keys (maps (two_objects zero00 Mapping.empty) 0) = {(0, 0)} \<and>
   flt (Fin 0) f05 \<and>
   Collapse (fixed_env f05 [(0, 0)]) 0 (two_objects zero00 Mapping.empty)
     = two_objects zero00 Mapping.empty \<and>
   \<not> IsCollapsed (objs (two_objects zero00 Mapping.empty) (Suc 0)) \<and>
   Mapping.keys (maps (two_objects zero00 Mapping.empty) (Suc 0)) = {} \<and>
   Collapse (fixed_env (Fin 0) []) (Suc 0) (two_objects zero00 Mapping.empty)
     = two_objects zero00 Mapping.empty"
proof -
  let ?s = "two_objects zero00 Mapping.empty"
  have nc: "\<not> IsCollapsed (objs ?s 0)" "\<not> IsCollapsed (objs ?s (Suc 0))"
    by simp_all
  have pos: "flt (Fin 0) f05"
    by (simp add: f05_value)
  have zero: "Mapping.keys (maps ?s (CoordDist (objs ?s 0))) = {} \<or>
     (\<forall>k \<in> Mapping.keys (maps ?s (CoordDist (objs ?s 0))).
        Mapping.lookup (maps ?s (CoordDist (objs ?s 0))) k = Some (Fin 0)) \<and>
     flt (Fin 0) (draw (fixed_env f05 [(0, 0)]))"
    by (simp add: zero00_def pos)
  have empty: "Mapping.keys (maps ?s (CoordDist (objs ?s (Suc 0)))) = {} \<or>
     (\<forall>k \<in> Mapping.keys (maps ?s (CoordDist (objs ?s (Suc 0)))).
        Mapping.lookup (maps ?s (CoordDist (objs ?s (Suc 0)))) k = Some (Fin 0)) \<and>
     flt (Fin 0) (draw (fixed_env (Fin 0) []))"
    by simp
  show ?thesis
    using Collapse_degenerate [OF nc(1) zero] Collapse_degenerate [OF nc(2) empty] pos
    by (simp add: zero00_def)
qed

section \<open>The two new tables of \<open>MeasureInteraction\<close>\<close>

subsection \<open>They are equal\<close>

lemma inner_fst_snd:
  "fst nd = snd nd \<Longrightarrow>
     fst (MeasureInteraction_inner c1 p1 d2 nd ks) = snd (MeasureInteraction_inner c1 p1 d2 nd ks)"
  by (induction ks arbitrary: nd) (auto simp: Let_def split: option.splits)

lemma outer_fst_snd:
  "fst nd = snd nd \<Longrightarrow>
     fst (MeasureInteraction_outer inner d1 d2 nd ks)
       = snd (MeasureInteraction_outer inner d1 d2 nd ks)"
  by (induction ks arbitrary: nd) (auto simp: inner_fst_snd split: option.splits)

lemma combine_fst_snd:
  "fst (MeasureInteraction_combine outer inner d1 d2)
     = snd (MeasureInteraction_combine outer inner d1 d2)"
  by (simp add: MeasureInteraction_combine_def outer_fst_snd)

lemma install_tables:
  "maps (MeasureInteraction_install n1 n2 a b s)
      (CoordDist (objs (MeasureInteraction_install n1 n2 a b s) a)) = (if a = b then n2 else n1)"
  "maps (MeasureInteraction_install n1 n2 a b s)
      (CoordDist (objs (MeasureInteraction_install n1 n2 a b s) b)) = n2"
  by (simp_all add: MeasureInteraction_install_def Let_def)

text \<open>
  Claim C9. The two tables that the loops of \<open>MeasureInteraction\<close> build are equal as
  mappings (same keys, same weight at every key), for all input tables and all orders;
  and in the heap right after lines 127-128 the table of the first object equals the table
  of the second, also when both pointers denote one object.
\<close>

theorem installed_tables_equal:
  "fst (MeasureInteraction_combine outer inner d1 d2)
     = snd (MeasureInteraction_combine outer inner d1 d2) \<and>
   maps (MeasureInteraction_install (fst (MeasureInteraction_combine outer inner d1 d2))
           (snd (MeasureInteraction_combine outer inner d1 d2)) a b s)
     (CoordDist (objs (MeasureInteraction_install (fst (MeasureInteraction_combine outer inner d1 d2))
           (snd (MeasureInteraction_combine outer inner d1 d2)) a b s) a))
   = maps (MeasureInteraction_install (fst (MeasureInteraction_combine outer inner d1 d2))
           (snd (MeasureInteraction_combine outer inner d1 d2)) a b s)
     (CoordDist (objs (MeasureInteraction_install (fst (MeasureInteraction_combine outer inner d1 d2))
           (snd (MeasureInteraction_combine outer inner d1 d2)) a b s) b))"
  by (simp add: install_tables combine_fst_snd)

subsection \<open>They hold the joint weights on the overlap\<close>

lemma in_overlap_iff:
  "c \<in> overlap d1 d2 \<longleftrightarrow> flt (Fin 0) (weight_at d1 c) \<and> flt (Fin 0) (weight_at d2 c)"
  by (cases "Mapping.lookup d1 c"; cases "Mapping.lookup d2 c")
     (auto simp: overlap_def keys_dom_lookup)

lemma inner_lookup:
  "distinct ks \<Longrightarrow>
     Mapping.lookup (fst (MeasureInteraction_inner c1 p1 d2 nd ks)) c =
       (if c = c1 \<and> c1 \<in> set ks \<and> flt (Fin 0) p1 \<and> flt (Fin 0) (weight_at d2 c1) \<and>
           flt (Fin 0) (fmul p1 (weight_at d2 c1))
        then Some (fadd (Mapping.lookup_default (Fin 0) (fst nd) c1) (fmul p1 (weight_at d2 c1)))
        else Mapping.lookup (fst nd) c)"
proof (induction ks arbitrary: nd c)
  case Nil
  then show ?case by simp
next
  case (Cons c2 ks)
  from Cons.prems have dist: "distinct ks" and notin: "c2 \<notin> set ks" by simp_all
  note IH = Cons.IH [OF dist]
  show ?case
  proof (cases "Mapping.lookup d2 c2")
    case None
    then show ?thesis using notin by (auto simp: IH)
  next
    case (Some p2)
    show ?thesis
    proof (cases "c2 = c1")
      case True
      then show ?thesis
        using Some notin by (simp add: IH Let_def Mapping.lookup_update')
    next
      case False
      then have "c1 \<noteq> c2" by simp
      then show ?thesis using Some False by (simp add: IH)
    qed
  qed
qed

lemma outer_lookup:
  "distinct ks \<Longrightarrow> \<forall>c1 \<in> set ks. range_order (inner c1) d2 \<Longrightarrow>
     Mapping.lookup (fst (MeasureInteraction_outer inner d1 d2 nd ks)) c =
       (if c \<in> set ks \<and> flt (Fin 0) (weight_at d1 c) \<and> flt (Fin 0) (weight_at d2 c) \<and>
           flt (Fin 0) (fmul (weight_at d1 c) (weight_at d2 c))
        then Some (fadd (Mapping.lookup_default (Fin 0) (fst nd) c)
                     (fmul (weight_at d1 c) (weight_at d2 c)))
        else Mapping.lookup (fst nd) c)"
proof (induction ks arbitrary: nd c)
  case Nil
  then show ?case by simp
next
  case (Cons c1 ks)
  from Cons.prems have dist: "distinct ks" and notin: "c1 \<notin> set ks"
    and ords: "\<forall>c \<in> set ks. range_order (inner c) d2" by simp_all
  note IH = Cons.IH [OF dist ords]
  have d: "distinct (inner c1)" and k: "set (inner c1) = Mapping.keys d2"
    using Cons.prems(2) by (simp_all add: range_order_def)
  have pos_in: "c1 \<in> set (inner c1)" if "flt (Fin 0) (weight_at d2 c1)"
    using that by (cases "Mapping.lookup d2 c1") (auto simp: k keys_dom_lookup)
  show ?case
  proof (cases "Mapping.lookup d1 c1")
    case None
    then show ?thesis using notin by (auto simp: IH)
  next
    case (Some p1)
    have same: "Mapping.lookup_default (Fin 0) (fst (MeasureInteraction_inner c1 p1 d2 nd (inner c1))) c
                  = Mapping.lookup_default (Fin 0) (fst nd) c" if "c \<noteq> c1"
      using that by (simp add: Mapping.lookup_default_def inner_lookup [OF d])
    show ?thesis
    proof (cases "c = c1")
      case True
      then show ?thesis
        using Some notin pos_in by (auto simp: IH inner_lookup [OF d])
    next
      case False
      then show ?thesis
        using Some by (simp add: IH inner_lookup [OF d] same)
    qed
  qed
qed

lemma combine_lookup:
  assumes "range_order outer d1" and "\<forall>c1 \<in> Mapping.keys d1. range_order (inner c1) d2"
  shows "Mapping.lookup (fst (MeasureInteraction_combine outer inner d1 d2)) c = joint_weight d1 d2 c"
proof -
  have d: "distinct outer" and k: "set outer = Mapping.keys d1"
    using assms(1) by (simp_all add: range_order_def)
  have pos_in: "flt (Fin 0) (weight_at d1 c) \<Longrightarrow> c \<in> set outer"
    by (cases "Mapping.lookup d1 c") (auto simp: k keys_dom_lookup)
  have acc: "fadd (Fin 0) (fmul (weight_at d1 c) (weight_at d2 c))
               = fmul (weight_at d1 c) (weight_at d2 c)"
    by (rule fadd_zero_left) (rule fmul_closed)
  show ?thesis
    using assms(2) pos_in
    by (auto simp: MeasureInteraction_combine_def outer_lookup [OF d] k joint_weight_def
        in_overlap_iff Mapping.lookup_default_empty acc)
qed

lemma tiny_facts [simp]: "flt (Fin 0) tiny" "fmul tiny tiny = Fin 0"
  unfolding tiny_def
  by (simp, simp, subst round64_eval [of "- 1074"], simp_all add: rne_def power_int_minus)

text \<open>
  Claim C6, as stated, fails: the product of two positive weights is rounded and can
  underflow to \<open>0\<close>, and then the guard \<^verbatim>\<open>w > 0\<close> of line 112 skips the coordinate. Two
  tables with the weight \<open>2 powi (- 600)\<close> at \<open>(0,0)\<close> overlap there, and both results
  are empty.
\<close>

theorem combine_underflow:
  "Mapping.lookup tiny00 (0, 0) = Some tiny \<and> flt (Fin 0) tiny \<and>
   (0, 0) \<in> overlap tiny00 tiny00 \<and> fmul tiny tiny = Fin 0 \<and>
   MeasureInteraction_combine [(0, 0)] (\<lambda>c. [(0, 0)]) tiny00 tiny00 = (Mapping.empty, Mapping.empty)"
  by (simp add: in_overlap_iff tiny00_def MeasureInteraction_combine_def weight_at_def
      Mapping.lookup_default_def)

lemma joint_half_half_point11:
  "joint_weight half_half point11 c = Mapping.lookup half11 c"
  by (simp add: joint_weight_def in_overlap_iff half_half_def point11_def half11_def
      weight_at_def Mapping.lookup_default_def Mapping.lookup_update')

text \<open>
  Claim C6, amended. Let the outer loop visit every key of the first table once, and every
  run of the inner loop every key of the second table once. Then both tables built by the
  loops have an entry exactly at the coordinates present in both inputs with a positive
  weight in both and a positive \<^verbatim>\<open>float64\<close> product of the two weights, and the entry is
  that product; a coordinate present in only one input, with a weight that is not
  positive, or with a product that underflows to \<open>0\<close>, gets no entry. In particular, from
  \<open>{(0,0): 0.5, (1,1): 0.5}\<close> and \<open>{(1,1): 1.0}\<close> both results are \<open>{(1,1): 0.5}\<close>.
\<close>

theorem combine_spec:
  assumes "range_order outer d1" and "\<forall>c1 \<in> Mapping.keys d1. range_order (inner c1) d2"
  shows "(\<forall>c. Mapping.lookup (fst (MeasureInteraction_combine outer inner d1 d2)) c
                = joint_weight d1 d2 c \<and>
              Mapping.lookup (snd (MeasureInteraction_combine outer inner d1 d2)) c
                = joint_weight d1 d2 c) \<and>
         (d1 = half_half \<and> d2 = point11 \<longrightarrow>
            MeasureInteraction_combine outer inner d1 d2 = (half11, half11))"
proof -
  have fst_ok: "Mapping.lookup (fst (MeasureInteraction_combine outer inner d1 d2)) c
                  = joint_weight d1 d2 c" for c
    using combine_lookup [OF assms] .
  have snd_ok: "Mapping.lookup (snd (MeasureInteraction_combine outer inner d1 d2)) c
                  = joint_weight d1 d2 c" for c
    using fst_ok [of c] by (simp add: combine_fst_snd)
  have ex: "MeasureInteraction_combine outer inner d1 d2 = (half11, half11)"
    if "d1 = half_half" "d2 = point11"
  proof -
    have "Mapping.lookup (fst (MeasureInteraction_combine outer inner d1 d2)) c
            = Mapping.lookup half11 c" for c
      using fst_ok [of c] by (simp add: that joint_half_half_point11)
    then have "fst (MeasureInteraction_combine outer inner d1 d2) = half11"
      by (rule mapping_eqI)
    moreover have "Mapping.lookup (snd (MeasureInteraction_combine outer inner d1 d2)) c
            = Mapping.lookup half11 c" for c
      using snd_ok [of c] by (simp add: that joint_half_half_point11)
    then have "snd (MeasureInteraction_combine outer inner d1 d2) = half11"
      by (rule mapping_eqI)
    ultimately show ?thesis by (simp add: prod_eq_iff)
  qed
  show ?thesis using fst_ok snd_ok ex by blast
qed

lemma range_order_half_half: "range_order diag2 half_half"
  by (simp add: range_order_def diag2_def half_half_def insert_commute)

lemma range_order_point11: "range_order [(1, 1)] point11"
  by (simp add: range_order_def point11_def)

theorem combine_spec_witness:
  "range_order diag2 half_half \<and> range_order [(1, 1)] point11 \<and>
   MeasureInteraction_combine diag2 (\<lambda>c. [(1, 1)]) half_half point11 = (half11, half11) \<and>
   Mapping.lookup (fst (MeasureInteraction_combine diag2 (\<lambda>c. [(1, 1)]) half_half point11)) (1, 1)
     = Some (Fin (1 / 2)) \<and>
   Mapping.lookup (snd (MeasureInteraction_combine diag2 (\<lambda>c. [(1, 1)]) half_half point11)) (0, 0)
     = None"
proof -
  have h1: "range_order diag2 half_half"
    by (rule range_order_half_half)
  have h2: "\<forall>c1 \<in> Mapping.keys half_half. range_order ((\<lambda>c. [(1, 1)]) c1) point11"
    by (simp add: range_order_point11)
  have j: "joint_weight half_half point11 (1, 1) = Some (Fin (1 / 2))"
    "joint_weight half_half point11 (0, 0) = None"
    by (simp_all add: joint_half_half_point11 half11_def)
  show ?thesis
    using combine_spec [OF h1 h2] h1 range_order_point11 j by (simp add: half11_def)
qed

subsection \<open>When the overlap is empty\<close>

lemma sign_scale:
  "flt (Fin 0) tot \<Longrightarrow> flt (Fin 0) (weight_at (NormalizeDistribution_scale tot d ks) c) \<Longrightarrow>
     flt (Fin 0) (weight_at d c)"
proof (induction ks arbitrary: d)
  case Nil
  then show ?case by simp
next
  case (Cons k ks)
  show ?case
  proof (cases "Mapping.lookup d k")
    case None
    then show ?thesis using Cons by simp
  next
    case (Some w)
    from Some Cons.prems(2)
    have "flt (Fin 0) (weight_at (NormalizeDistribution_scale tot (Mapping.update k (fdiv w tot) d) ks) c)"
      by simp
    from Cons.IH [OF Cons.prems(1) this]
    have upd: "flt (Fin 0) (weight_at (Mapping.update k (fdiv w tot) d) c)" .
    show ?thesis
    proof (cases "c = k")
      case True
      with upd have "flt (Fin 0) (fdiv w tot)"
        by (simp add: weight_at_def Mapping.lookup_default_def)
      from fdiv_positive [OF Cons.prems(1) this] Some True show ?thesis by simp
    next
      case False
      with upd show ?thesis
        by (simp add: weight_at_def Mapping.lookup_default_def)
    qed
  qed
qed

lemma NormalizeDistribution_sign:
  "flt (Fin 0) (weight_at (maps (NormalizeDistribution e q s) m) c) \<Longrightarrow>
     flt (Fin 0) (weight_at (maps s m) c)"
  by (auto simp: NormalizeDistribution_def Let_def split: if_splits dest: sign_scale)

lemma NormalizeDistribution_overlap:
  "overlap (maps (NormalizeDistribution e q s) m1) (maps (NormalizeDistribution e q s) m2)
     \<subseteq> overlap (maps s m1) (maps s m2)"
  by (auto simp: in_overlap_iff dest: NormalizeDistribution_sign)

lemma inner_keys:
  "Mapping.keys (fst (MeasureInteraction_inner c1 p1 d2 nd ks))
     \<subseteq> Mapping.keys (fst nd) \<union>
         (if flt (Fin 0) p1 \<and> flt (Fin 0) (weight_at d2 c1) then {c1} else {})"
proof (induction ks arbitrary: nd)
  case Nil
  then show ?case by simp
next
  case (Cons c2 ks)
  show ?case
  proof (cases "Mapping.lookup d2 c2")
    case None
    then show ?thesis using Cons.IH [of nd] by simp
  next
    case (Some p2)
    show ?thesis
    proof (cases "c2 = c1 \<and> flt (Fin 0) p1 \<and> flt (Fin 0) p2 \<and> flt (Fin 0) (fmul p1 p2)")
      case True
      then show ?thesis
        using Some
          Cons.IH [of "(Mapping.update c1 (fadd (Mapping.lookup_default (Fin 0) (fst nd) c1) (fmul p1 p2)) (fst nd),
                        Mapping.update c1 (fadd (Mapping.lookup_default (Fin 0) (snd nd) c1) (fmul p1 p2)) (snd nd))"]
        by (auto simp: Let_def)
    next
      case False
      then show ?thesis using Some Cons.IH [of nd] by (auto simp: Let_def)
    qed
  qed
qed

lemma outer_keys:
  "Mapping.keys (fst (MeasureInteraction_outer inner d1 d2 nd ks))
     \<subseteq> Mapping.keys (fst nd) \<union> overlap d1 d2"
proof (induction ks arbitrary: nd)
  case Nil
  then show ?case by simp
next
  case (Cons c1 ks)
  show ?case
  proof (cases "Mapping.lookup d1 c1")
    case None
    then show ?thesis using Cons.IH [of nd] by simp
  next
    case (Some p1)
    have "Mapping.keys (fst (MeasureInteraction_inner c1 p1 d2 nd (inner c1)))
            \<subseteq> Mapping.keys (fst nd) \<union> overlap d1 d2"
      using inner_keys [of c1 p1 d2 nd "inner c1"] Some
      by (auto simp: in_overlap_iff split: if_splits)
    then show ?thesis
      using Some Cons.IH [of "MeasureInteraction_inner c1 p1 d2 nd (inner c1)"] by auto
  qed
qed

lemma combine_is_empty:
  "overlap d1 d2 = {} \<Longrightarrow> Mapping.is_empty (fst (MeasureInteraction_combine outer inner d1 d2))"
  using outer_keys [of inner d1 d2 "(Mapping.empty, Mapping.empty)" outer]
  by (simp add: MeasureInteraction_combine_def Mapping.is_empty_def)

lemma overlap_heavy00_point11: "overlap heavy00 point11 = {}"
  by (auto simp: overlap_def heavy00_def point11_def)

text \<open>
  Claim C2, as stated, fails: lines 99-100 normalise both tables in place before the
  overlap is computed, so on an empty overlap the weights have changed: \<open>{(0,0): 2}\<close>
  has become \<open>{(0,0): 1}\<close>.
\<close>

theorem MeasureInteraction_normalizes:
  "overlap (maps (two_objects heavy00 point11) 0) (maps (two_objects heavy00 point11) 1) = {} \<and>
   Mapping.lookup (maps (two_objects heavy00 point11) 0) (0, 0) = Some (Fin 2) \<and>
   Mapping.lookup (maps (MeasureInteraction (interact_env [(0, 0)] [(1, 1)] [] f02 f09)
      (NewWorld 10 10) 0 1 (two_objects heavy00 point11)) 0) (0, 0) = Some (Fin 1)"
proof -
  have "overlap (maps (two_objects heavy00 point11) 0) (maps (two_objects heavy00 point11) 1) = {}"
    by (simp add: overlap_heavy00_point11)
  moreover have "Mapping.lookup (maps (two_objects heavy00 point11) 0) (0, 0) = Some (Fin 2)"
    by (simp add: heavy00_def)
  moreover have "Mapping.lookup (maps (MeasureInteraction (interact_env [(0, 0)] [(1, 1)] [] f02 f09)
      (NewWorld 10 10) 0 1 (two_objects heavy00 point11)) 0) (0, 0) = Some (Fin 1)"
    by (simp add: MeasureInteraction_def MeasureInteraction_combine_def
      NormalizeDistribution_def interact_env_def heavy00_def point11_def Let_def)
  ultimately show ?thesis by blast
qed

text \<open>
  Claim C2, amended. If no coordinate has a positive weight in both tables, then for all
  orders and numbers drawn \<open>MeasureInteraction\<close> changes no object (neither flag, neither
  final coordinate, neither table address) and no key set; if both objects were collapsed
  it changes nothing at all, and otherwise its whole effect is that of the two calls of
  \<open>NormalizeDistribution\<close> at lines 99-100.
\<close>

theorem MeasureInteraction_no_overlap:
  assumes "overlap (maps s (CoordDist (objs s a))) (maps s (CoordDist (objs s b))) = {}"
  shows "MeasureInteraction e w a b s =
           (if IsCollapsed (objs s a) \<and> IsCollapsed (objs s b) then s
            else NormalizeDistribution (norm2 e) b (NormalizeDistribution (norm1 e) a s)) \<and>
         objs (MeasureInteraction e w a b s) = objs s \<and>
         (\<forall>m. Mapping.keys (maps (MeasureInteraction e w a b s) m) = Mapping.keys (maps s m))"
proof -
  let ?s1 = "NormalizeDistribution (norm1 e) a s"
  let ?s2 = "NormalizeDistribution (norm2 e) b ?s1"
  have "overlap (maps ?s2 (CoordDist (objs s a))) (maps ?s2 (CoordDist (objs s b)))
          \<subseteq> overlap (maps ?s1 (CoordDist (objs s a))) (maps ?s1 (CoordDist (objs s b)))"
    by (rule NormalizeDistribution_overlap)
  also have "\<dots> \<subseteq> overlap (maps s (CoordDist (objs s a))) (maps s (CoordDist (objs s b)))"
    by (rule NormalizeDistribution_overlap)
  finally have "overlap (maps ?s2 (CoordDist (objs s a))) (maps ?s2 (CoordDist (objs s b))) = {}"
    using assms by simp
  then have "Mapping.is_empty (fst (MeasureInteraction_combine (outerOrder e) (innerOrder e)
      (maps ?s2 (CoordDist (objs s a))) (maps ?s2 (CoordDist (objs s b)))))"
    by (rule combine_is_empty)
  then have eq: "MeasureInteraction e w a b s =
           (if IsCollapsed (objs s a) \<and> IsCollapsed (objs s b) then s else ?s2)"
    by (simp add: MeasureInteraction_def Let_def)
  show ?thesis
    unfolding eq by simp
qed

theorem MeasureInteraction_no_overlap_witness:
  "overlap (maps (two_objects heavy00 point11) 0) (maps (two_objects heavy00 point11) (Suc 0)) = {} \<and>
   MeasureInteraction (interact_env [(0, 0)] [(1, 1)] [] f02 f09) (NewWorld 10 10) 0 (Suc 0)
       (two_objects heavy00 point11)
     = NormalizeDistribution (fixed_norm [(1, 1)]) (Suc 0)
         (NormalizeDistribution (fixed_norm [(0, 0)]) 0 (two_objects heavy00 point11)) \<and>
   objs (MeasureInteraction (interact_env [(0, 0)] [(1, 1)] [] f02 f09) (NewWorld 10 10) 0 (Suc 0)
       (two_objects heavy00 point11)) = objs (two_objects heavy00 point11) \<and>
   Mapping.keys (maps (MeasureInteraction (interact_env [(0, 0)] [(1, 1)] [] f02 f09)
       (NewWorld 10 10) 0 (Suc 0) (two_objects heavy00 point11)) 0) = {(0, 0)}"
proof -
  let ?s = "two_objects heavy00 point11"
  have h: "overlap (maps ?s (CoordDist (objs ?s 0))) (maps ?s (CoordDist (objs ?s (Suc 0)))) = {}"
    by (simp add: overlap_heavy00_point11)
  have k: "Mapping.keys (maps ?s 0) = {(0, 0)}"
    by (simp add: heavy00_def)
  show ?thesis
    using MeasureInteraction_no_overlap [OF h,
        of "interact_env [(0, 0)] [(1, 1)] [] f02 f09" "NewWorld 10 10"] k
    by (simp add: overlap_heavy00_point11 interact_env_def)
qed

section \<open>The first coordinate whose cumulative sum reaches the number drawn\<close>

lemma scan_Some_iff:
  "set ks \<subseteq> Mapping.keys d \<Longrightarrow>
     (Collapse_scan r d acc ks = Some c) =
       (\<exists>i < length ks. ks ! i = c \<and>
          fle r (foldl fadd acc (map (weight_at d) (take (Suc i) ks))) \<and>
          (\<forall>j < i. \<not> fle r (foldl fadd acc (map (weight_at d) (take (Suc j) ks)))))"
proof (induction ks arbitrary: acc)
  case Nil
  then show ?case by simp
next
  case (Cons k ks)
  then obtain p where p: "Mapping.lookup d k = Some p"
    by (auto simp: keys_dom_lookup)
  from Cons.prems have sub: "set ks \<subseteq> Mapping.keys d" by simp
  note IH = Cons.IH [OF sub]
  show ?case
  proof (cases "fle r (fadd acc p)")
    case True
    then show ?thesis
      using p by (auto simp: Let_def Ex_less_Suc2 All_less_Suc2)
  next
    case False
    then show ?thesis
      using p by (simp add: Let_def IH Ex_less_Suc2 All_less_Suc2)
  qed
qed

lemma scan_first_reaching:
  "set ks \<subseteq> Mapping.keys d \<Longrightarrow>
     (Collapse_scan r d (Fin 0) ks = Some c) = (\<exists>i. first_reaching r d ks i \<and> ks ! i = c)"
  by (auto simp: scan_Some_iff first_reaching_def cumulative_upto_def float_total_def)

lemma Collapse_first_reaching:
  assumes "\<not> IsCollapsed (objs s q)"
    and "range_order (scanOrder e)
           (maps (NormalizeDistribution (normOrders e) q s) (CoordDist (objs s q)))"
  shows "(IsCollapsed (objs (Collapse e q s) q) \<and> FinalCoord (objs (Collapse e q s) q) = c) =
         (\<exists>i. first_reaching (draw e)
                 (maps (NormalizeDistribution (normOrders e) q s) (CoordDist (objs s q)))
                 (scanOrder e) i \<and> scanOrder e ! i = c)"
proof -
  let ?d = "maps (NormalizeDistribution (normOrders e) q s) (CoordDist (objs s q))"
  have sub: "set (scanOrder e) \<subseteq> Mapping.keys ?d"
    using assms(2) by (simp add: range_order_def)
  show ?thesis
    unfolding scan_first_reaching [OF sub, symmetric]
    using assms(1) by (auto simp: Collapse_def Let_def split: option.splits)
qed

text \<open>
  The running sum is rounded at every step, and the rounding can decide the draw: on the
  table \<open>ties3\<close> the exact sum of the first two weights is below the number drawn, the
  rounded one reaches it, and the loop breaks at the second entry.
\<close>

lemma Collapse_scan_rounds:
  "Collapse_scan (Fin (2251799813685249 / 4503599627370496)) ties3 (Fin 0) [(0, 0), (1, 0), (2, 0)]
     = Some (1, 0)"
proof -
  have a: "round64 (4503599627370497 / 9007199254740992) = Fin (4503599627370497 / 9007199254740992)"
    by (subst round64_eval [of "- 53"]) (simp_all add: rne_def)
  have b: "round64 (9007199254740995 / 18014398509481984) = Fin (2251799813685249 / 4503599627370496)"
    by (subst round64_eval [of "- 53"]) (simp_all add: rne_def)
  show ?thesis
    by (simp add: ties3_def Let_def a b)
qed

text \<open>
  Claim C4, as stated, fails in its example: the order of a \<^verbatim>\<open>range\<close> over a Go map is
  not fixed, and when the loop visits \<open>(1,0)\<close> before \<open>(0,0)\<close> the number \<open>0.2\<close>
  selects \<open>(1,0)\<close>, whose cumulative sum \<open>0.7\<close> already reaches it.
\<close>

theorem Collapse_other_order:
  "range_order [(1, 0), (0, 0)] dist_37 \<and>
   \<not> IsCollapsed (objs (two_objects dist_37 point11) 0) \<and>
   draw (fixed_env f02 [(1, 0), (0, 0)]) = f02 \<and>
   IsCollapsed (objs (Collapse (fixed_env f02 [(1, 0), (0, 0)]) 0 (two_objects dist_37 point11)) 0) \<and>
   FinalCoord (objs (Collapse (fixed_env f02 [(1, 0), (0, 0)]) 0 (two_objects dist_37 point11)) 0)
     = (1, 0)"
proof -
  let ?s = "two_objects dist_37 point11"
  let ?e = "fixed_env f02 [(1, 0), (0, 0)]"
  have tab: "maps (NormalizeDistribution (fixed_norm [(1, 0), (0, 0)]) 0 ?s) 0 = dist_37"
    using NormalizeDistribution_dist_37 [of ?s 0 "fixed_norm [(1, 0), (0, 0)]"]
    by (simp add: range_order_dist_37)
  have "IsCollapsed (objs (Collapse ?e 0 ?s) 0) \<and> FinalCoord (objs (Collapse ?e 0 ?s) 0) = (1, 0)"
    by (simp add: Collapse_def Let_def tab) (simp add: dist_37_def)
  then show ?thesis
    by (simp add: range_order_dist_37)
qed

text \<open>
  Claim C4, amended. On an uncollapsed object \<open>Collapse\<close> normalises the table and then,
  visiting every key once in the order of the loop, collapses the object to the coordinate
  at the first position whose cumulative sum, a \<^verbatim>\<open>float64\<close> sum rounded at every step,
  is at least the number drawn (and leaves it uncollapsed when there is no such position).
  In particular, for the table \<open>{(0,0): 0.3, (1,0): 0.7}\<close> visited in the order \<open>(0,0)\<close>,
  \<open>(1,0)\<close>, the number \<open>0.2\<close> selects \<open>(0,0)\<close> and the number \<open>0.5\<close> selects
  \<open>(1,0)\<close>.
\<close>

theorem Collapse_selects_first:
  assumes "\<not> IsCollapsed (objs s q)"
    and "range_order (scanOrder e)
           (maps (NormalizeDistribution (normOrders e) q s) (CoordDist (objs s q)))"
  shows "(\<forall>c. (IsCollapsed (objs (Collapse e q s) q) \<and> FinalCoord (objs (Collapse e q s) q) = c) =
              (\<exists>i. first_reaching (draw e)
                 (maps (NormalizeDistribution (normOrders e) q s) (CoordDist (objs s q)))
                 (scanOrder e) i \<and> scanOrder e ! i = c)) \<and>
         (maps s (CoordDist (objs s q)) = dist_37 \<and>
          range_order (sumOrder (normOrders e)) dist_37 \<and>
          range_order (scaleOrder (normOrders e)) dist_37 \<and>
          scanOrder e = [(0, 0), (1, 0)] \<longrightarrow>
            (draw e = f02 \<longrightarrow>
               IsCollapsed (objs (Collapse e q s) q) \<and>
               FinalCoord (objs (Collapse e q s) q) = (0, 0)) \<and>
            (draw e = f05 \<longrightarrow>
               IsCollapsed (objs (Collapse e q s) q) \<and>
               FinalCoord (objs (Collapse e q s) q) = (1, 0)))"
  using Collapse_first_reaching [OF assms] Collapse_dist_37_ordered [OF assms(1)]
  by blast

theorem Collapse_selects_first_witness:
  "\<not> IsCollapsed (objs (two_objects dist_37 point11) 0) \<and>
   range_order [(0, 0), (1, 0)] dist_37 \<and>
   FinalCoord (objs (Collapse (fixed_env f02 [(0, 0), (1, 0)]) 0 (two_objects dist_37 point11)) 0)
     = (0, 0) \<and>
   FinalCoord (objs (Collapse (fixed_env f05 [(0, 0), (1, 0)]) 0 (two_objects dist_37 point11)) 0)
     = (1, 0) \<and>
   first_reaching f05 dist_37 [(0, 0), (1, 0)] 1"
proof -
  let ?s = "two_objects dist_37 point11"
  have nc: "\<not> IsCollapsed (objs ?s 0)"
    by simp
  have tab: "maps (NormalizeDistribution (fixed_norm [(0, 0), (1, 0)]) 0 ?s) 0 = dist_37"
    using NormalizeDistribution_dist_37 [of ?s 0 "fixed_norm [(0, 0), (1, 0)]"]
    by (simp add: range_order_dist_37)
  have ro: "range_order (scanOrder (fixed_env r [(0, 0), (1, 0)]))
      (maps (NormalizeDistribution (normOrders (fixed_env r [(0, 0), (1, 0)])) 0 ?s)
         (CoordDist (objs ?s 0)))" for r
    by (simp add: tab range_order_dist_37)
  have fr: "first_reaching f05 dist_37 [(0, 0), (1, 0)] 1"
    by (simp add: first_reaching_def cumulative_upto_def float_total_def dist_37_def weight_at_def
        Mapping.lookup_default_def fadd_f03_f07)
  show ?thesis
    using Collapse_selects_first [OF nc ro [of f02]] Collapse_selects_first [OF nc ro [of f05]] fr
    by (simp add: range_order_dist_37)
qed

section \<open>Two objects that interact need not meet\<close>

text \<open>
  Claim C1 does not hold of the code. The comment above \<open>MeasureInteraction\<close> says that
  both objects are collapsed into the one point where they meet, but lines 131-132 call
  \<open>Collapse\<close> on each object separately, each with a number of its own. When the overlap
  has more than one coordinate the two calls can select different ones: both objects start
  uncollapsed with the table \<open>{(0,0): 1, (1,1): 1}\<close>, every loop visits \<open>(0,0)\<close> first,
  the numbers drawn are \<open>0.2\<close> and \<open>0.9\<close>; both objects end collapsed, the first at
  \<open>(0,0)\<close> and the second at \<open>(1,1)\<close>. Likewise, when the first object is already
  collapsed, at \<open>(3,3)\<close>, it stays there and the second collapses at \<open>(0,0)\<close>.
\<close>

theorem interact_splits_pair:
  "\<not> IsCollapsed (objs (two_objects uniform2 uniform2) 0) \<and>
   \<not> IsCollapsed (objs (two_objects uniform2 uniform2) 1) \<and>
   (0, 0) \<in> overlap uniform2 uniform2 \<and>
   IsCollapsed (objs (MeasureInteraction (interact_env diag2 diag2 diag2 f02 f09)
      (NewWorld 10 10) 0 1 (two_objects uniform2 uniform2)) 0) \<and>
   IsCollapsed (objs (MeasureInteraction (interact_env diag2 diag2 diag2 f02 f09)
      (NewWorld 10 10) 0 1 (two_objects uniform2 uniform2)) 1) \<and>
   FinalCoord (objs (MeasureInteraction (interact_env diag2 diag2 diag2 f02 f09)
      (NewWorld 10 10) 0 1 (two_objects uniform2 uniform2)) 0) = (0, 0) \<and>
   FinalCoord (objs (MeasureInteraction (interact_env diag2 diag2 diag2 f02 f09)
      (NewWorld 10 10) 0 1 (two_objects uniform2 uniform2)) 1) = (1, 1) \<and>
   IsCollapsed (objs (MeasureInteraction (interact_env diag2 diag2 diag2 f02 f02)
      (NewWorld 10 10) 0 1 (collapsed_at 0 (3, 3) (two_objects uniform2 uniform2))) 1) \<and>
   FinalCoord (objs (MeasureInteraction (interact_env diag2 diag2 diag2 f02 f02)
      (NewWorld 10 10) 0 1 (collapsed_at 0 (3, 3) (two_objects uniform2 uniform2))) 0) = (3, 3) \<and>
   FinalCoord (objs (MeasureInteraction (interact_env diag2 diag2 diag2 f02 f02)
      (NewWorld 10 10) 0 1 (collapsed_at 0 (3, 3) (two_objects uniform2 uniform2))) 1) = (0, 0)"
  by (simp add: MeasureInteraction_def MeasureInteraction_combine_def MeasureInteraction_install_def
      Collapse_def NormalizeDistribution_def interact_env_def fixed_env_def fixed_norm_def
      two_objects_def collapsed_at_def uniform2_def diag2_def NewQuantumObject_def Let_def
      Mapping.lookup_default_def in_overlap_iff weight_at_def f02_value f09_value)

end
